theory Spec2Isabelle
  imports Complex_Main
begin

section \<open>Data model of the vehicle detection service\<close>

text \<open>
  The service is a TypeScript class. Its enum becomes a datatype, its interfaces become
  records. A finite JavaScript \<^verbatim>\<open>number\<close> is modelled by the real it denotes (a
  counter by a natural number), and every arithmetic operation rounds its result to the
  nearest binary64 value, as the section on IEEE numbers below sets out. The one other
  value the code can produce, \<^verbatim>\<open>NaN\<close> from arithmetic on \<^verbatim>\<open>undefined\<close>, is a
  constructor of its own.
\<close>

datatype VehicleType = CAR | BUS | TRUCK | MOTORCYCLE | BICYCLE | VAN | UNKNOWN

datatype number = Num real | NaN

record BBox =
  x_bb :: number
  y_bb :: number
  width_bb :: number
  height_bb :: number

record DetectedVehicle =
  id_dv :: string
  type_dv :: VehicleType
  confidence :: real
  bbox :: BBox
  licensePlate :: "string option"
  timestamp :: nat

record VehicleCount =
  car :: nat
  bus :: nat
  truck :: nat
  motorcycle :: nat
  bicycle :: nat
  van :: nat
  unknown :: nat
  total_count :: nat

datatype error = TypeError string | Error string

datatype GraphModel = GraphModel string

text \<open>\<^verbatim>\<open>Object.values(VehicleType)\<close>: the enum's values in declaration order.\<close>

definition Object_values_VehicleType :: "VehicleType list" where
  "Object_values_VehicleType = [CAR, BUS, TRUCK, MOTORCYCLE, BICYCLE, VAN, UNKNOWN]"

subsection \<open>IEEE numbers\<close>

text \<open>
  A number is a binary64 value: 53 significant bits, and a spacing of no less than
  \<open>2 powi - 1074\<close>. The data of a tensor comes out of a \<^verbatim>\<open>Float32Array\<close> (24 significant
  bits, spacing no less than \<open>2 powi - 149\<close>) or an \<^verbatim>\<open>Int32Array\<close>, and such an element
  is read as a number without rounding. \<open>round_to p emin\<close> rounds a real to the nearest
  value with \<open>p\<close> significant bits, ties to the even one; \<open>to_double\<close> is the rounding
  of every arithmetic operation and of every decimal literal of the source, \<open>fround\<close>
  the rounding when a number is stored into a \<^verbatim>\<open>Float32Array\<close>. The elements
  of a tensor are taken to be finite. Overflow to \<^verbatim>\<open>Infinity\<close> is left out: the
  operations of the source multiply tensor data by 320, subtract tensor data, and scale
  and shift draws below 1 by constants up to 300, all far below the largest binary64
  value.
\<close>

definition round_even :: "real \<Rightarrow> int" where
  "round_even x =
     (let f = \<lfloor>x\<rfloor>; d = x - of_int f
      in if d < 1 / 2 then f else if 1 / 2 < d then f + 1 else if even f then f else f + 1)"

text \<open>The exponent of the spacing of the values around \<open>x\<close>.\<close>

definition ulp_exp :: "nat \<Rightarrow> int \<Rightarrow> real \<Rightarrow> int" where
  "ulp_exp p emin x = max (\<lfloor>log 2 \<bar>x\<bar>\<rfloor> - int p + 1) emin"

definition round_to :: "nat \<Rightarrow> int \<Rightarrow> real \<Rightarrow> real" where
  "round_to p emin x =
     (if x = 0 then 0
      else 2 powi ulp_exp p emin x * of_int (round_even (x / 2 powi ulp_exp p emin x)))"

definition to_double :: "real \<Rightarrow> real" where
  "to_double = round_to 53 (- 1074)"

definition fround :: "real \<Rightarrow> real" where
  "fround = round_to 24 (- 149)"

definition is_double :: "real \<Rightarrow> bool" where
  "is_double x = (to_double x = x)"

text \<open>The values a \<^verbatim>\<open>Float32Array\<close> can hold.\<close>

definition is_float32 :: "real \<Rightarrow> bool" where
  "is_float32 x = (fround x = x)"

subsection \<open>Reading arrays and doing arithmetic the JavaScript way\<close>

text \<open>Reading an array out of range gives \<^verbatim>\<open>undefined\<close>, here \<open>None\<close>.\<close>

definition nth_opt :: "'a list \<Rightarrow> nat \<Rightarrow> 'a option" where
  "nth_opt xs i = (if i < length xs then Some (xs ! i) else None)"

definition to_number :: "real option \<Rightarrow> number" where
  "to_number v = (case v of None \<Rightarrow> NaN | Some r \<Rightarrow> Num r)"

fun times_num :: "number \<Rightarrow> number \<Rightarrow> number" where
  "times_num (Num a) (Num b) = Num (to_double (a * b))"
| "times_num _ _ = NaN"

fun minus_num :: "number \<Rightarrow> number \<Rightarrow> number" where
  "minus_num (Num a) (Num b) = Num (to_double (a - b))"
| "minus_num _ _ = NaN"

text \<open>\<^verbatim>\<open>i < maxDetections\<close> for the loop counter \<open>i\<close>: a comparison with \<^verbatim>\<open>undefined\<close> is false.\<close>

definition lt_num :: "nat \<Rightarrow> real option \<Rightarrow> bool" where
  "lt_num i v = (case v of None \<Rightarrow> False | Some r \<Rightarrow> real i < r)"

text \<open>\<^verbatim>\<open>s.charAt(i)\<close>: the empty string when \<open>i\<close> is out of range.\<close>

definition charAt :: "string \<Rightarrow> int \<Rightarrow> string" where
  "charAt s i = (if 0 \<le> i \<and> nat i < length s then [s ! nat i] else [])"

text \<open>The decimal rendering of a non-negative integer inside a template string.\<close>

fun show_nat :: "nat \<Rightarrow> string" where
  "show_nat n = (if n < 10 then [''0123456789'' ! n]
                 else show_nat (n div 10) @ [''0123456789'' ! (n mod 10)])"

declare show_nat.simps [simp del]

subsection \<open>The outside world: random source, clock and console\<close>

text \<open>
  \<^verbatim>\<open>Math.random()\<close> returns a number that is at least 0 and less than 1; the type
  \<open>unit_real\<close> holds exactly these binary64 values. The world is the sequence of values
  the random source will return, the sequence of readings of the millisecond clock, how
  many of each have been consumed, and what has been written to the console.
\<close>

typedef unit_real = "{r::real. 0 \<le> r \<and> r < 1 \<and> is_double r}"
  by (rule exI [of _ 0]) (simp add: is_double_def to_double_def round_to_def)

setup_lifting type_definition_unit_real

record world =
  rnd :: "nat \<Rightarrow> unit_real"
  rnd_pos :: nat
  clock :: "nat \<Rightarrow> nat"
  clock_pos :: nat
  console :: "string list"

definition Math_random :: "world \<Rightarrow> real \<times> world" where
  "Math_random w = (Rep_unit_real (rnd w (rnd_pos w)), w\<lparr>rnd_pos := Suc (rnd_pos w)\<rparr>)"

definition Date_now :: "world \<Rightarrow> nat \<times> world" where
  "Date_now w = (clock w (clock_pos w), w\<lparr>clock_pos := Suc (clock_pos w)\<rparr>)"

definition console_log :: "string \<Rightarrow> world \<Rightarrow> world" where
  "console_log msg w = w\<lparr>console := console w @ [msg]\<rparr>"

section \<open>Producing detections\<close>

subsection \<open>Label tables\<close>

definition COCO_CLASSES :: "string list" where
  "COCO_CLASSES =
    [''person'', ''bicycle'', ''car'', ''motorcycle'', ''airplane'', ''bus'', ''train'', ''truck'', ''boat'',
     ''traffic light'', ''fire hydrant'', '''', ''stop sign'', ''parking meter'', ''bench'', ''bird'',
     ''cat'', ''dog'', ''horse'', ''sheep'', ''cow'', ''elephant'', ''bear'', ''zebra'', ''giraffe'',
     '''', ''backpack'', ''umbrella'', '''', '''', ''handbag'', ''tie'', ''suitcase'', ''frisbee'',
     ''skis'', ''snowboard'', ''sports ball'', ''kite'', ''baseball bat'', ''baseball glove'',
     ''skateboard'', ''surfboard'', ''tennis racket'', ''bottle'', '''', ''wine glass'', ''cup'',
     ''fork'', ''knife'', ''spoon'', ''bowl'', ''banana'', ''apple'', ''sandwich'', ''orange'',
     ''broccoli'', ''carrot'', ''hot dog'', ''pizza'', ''donut'', ''cake'', ''chair'', ''couch'',
     ''potted plant'', ''bed'', '''', ''dining table'', '''', '''', ''toilet'', '''', ''tv'',
     ''laptop'', ''mouse'', ''remote'', ''keyboard'', ''cell phone'', ''microwave'', ''oven'',
     ''toaster'', ''sink'', ''refrigerator'', '''', ''book'', ''clock'', ''vase'', ''scissors'',
     ''teddy bear'', ''hair drier'', ''toothbrush'']"

definition VEHICLE_CLASS_MAP :: "string \<Rightarrow> VehicleType option" where
  "VEHICLE_CLASS_MAP = map_of
    [(''bicycle'', BICYCLE),
     (''car'', CAR),
     (''motorcycle'', MOTORCYCLE),
     (''bus'', BUS),
     (''truck'', TRUCK)]"

text \<open>
  \<^verbatim>\<open>this.COCO_CLASSES[classIndex] || 'unknown'\<close>. The index is a number read from a
  tensor: only a non-negative whole number below the table's length names an entry,
  and an empty label is falsy.
\<close>

definition className_of :: "real option \<Rightarrow> string" where
  "className_of classIndex =
     (case classIndex of
        None \<Rightarrow> ''unknown''
      | Some c \<Rightarrow>
          (if 0 \<le> c \<and> c = of_int \<lfloor>c\<rfloor> then
             (case nth_opt COCO_CLASSES (nat \<lfloor>c\<rfloor>) of
                None \<Rightarrow> ''unknown''
              | Some l \<Rightarrow> (if l = [] then ''unknown'' else l))
           else ''unknown''))"

subsection \<open>generateLicensePlate\<close>

fun plate_letters :: "nat \<Rightarrow> string \<Rightarrow> world \<Rightarrow> string \<times> world" where
  "plate_letters 0 plate w = (plate, w)"
| "plate_letters (Suc k) plate w =
     (let (r, w') = Math_random w;
          letters = ''ABCDEFGHIJKLMNOPQRSTUVWXYZ''
      in plate_letters k (plate @ charAt letters \<lfloor>to_double (r * real (length letters))\<rfloor>) w')"

fun plate_numbers :: "nat \<Rightarrow> string \<Rightarrow> world \<Rightarrow> string \<times> world" where
  "plate_numbers 0 plate w = (plate, w)"
| "plate_numbers (Suc k) plate w =
     (let (r, w') = Math_random w;
          numbers = ''0123456789''
      in plate_numbers k (plate @ charAt numbers \<lfloor>to_double (r * real (length numbers))\<rfloor>) w')"

definition generateLicensePlate :: "world \<Rightarrow> string \<times> world" where
  "generateLicensePlate w =
     (let (plate, w') = plate_letters 3 [] w
      in plate_numbers 4 plate w')"

subsection \<open>postProcessDetections\<close>

definition confidenceThreshold :: real where
  "confidenceThreshold = to_double 0.3"

text \<open>The object literal of the decoder's loop body, its fields evaluated in order.\<close>

definition decoded_vehicle ::
  "nat \<Rightarrow> real \<Rightarrow> VehicleType \<Rightarrow> real list \<Rightarrow> world \<Rightarrow> DetectedVehicle \<times> world" where
  "decoded_vehicle i score vt boxes w =
     (let (now, w1) = Date_now w;
          (plate, w2) = generateLicensePlate w1;
          (stamp, w3) = Date_now w2
      in (\<lparr>id_dv = ''vehicle_'' @ show_nat now @ ''_'' @ show_nat i,
           type_dv = vt,
           confidence = score,
           bbox = \<lparr>x_bb = times_num (to_number (nth_opt boxes (i * 4 + 1))) (Num 320),
                    y_bb = times_num (to_number (nth_opt boxes (i * 4))) (Num 320),
                    width_bb = times_num (minus_num (to_number (nth_opt boxes (i * 4 + 3)))
                                                    (to_number (nth_opt boxes (i * 4 + 1)))) (Num 320),
                    height_bb = times_num (minus_num (to_number (nth_opt boxes (i * 4 + 2)))
                                                     (to_number (nth_opt boxes (i * 4)))) (Num 320)\<rparr>,
           licensePlate = Some plate,
           timestamp = stamp\<rparr>, w3))"

text \<open>
  The body of the \<^verbatim>\<open>for\<close> loop: entry \<open>i\<close> is pushed when its score is above the
  threshold and its label is a key of the vehicle map.
\<close>

definition postProcessBody ::
  "nat \<Rightarrow> real list \<Rightarrow> real list \<Rightarrow> real list \<Rightarrow> DetectedVehicle list \<Rightarrow> world \<Rightarrow>
   DetectedVehicle list \<times> world" where
  "postProcessBody i boxes classes scores detections w =
     (let score = nth_opt scores i;
          classIndex = nth_opt classes i;
          className = className_of classIndex
      in case (score, VEHICLE_CLASS_MAP className) of
           (Some sc, Some vt) \<Rightarrow>
             (if sc > confidenceThreshold then
                (let (detection, w') = decoded_vehicle i sc vt boxes w
                 in (detections @ [detection], w'))
              else (detections, w))
         | _ \<Rightarrow> (detections, w))"

text \<open>\<^verbatim>\<open>for (let i = 0; i < maxDetections; i++)\<close>\<close>

function postProcessLoop ::
  "nat \<Rightarrow> real option \<Rightarrow> real list \<Rightarrow> real list \<Rightarrow> real list \<Rightarrow>
   DetectedVehicle list \<Rightarrow> world \<Rightarrow> DetectedVehicle list \<times> world" where
  "postProcessLoop i maxDetections boxes classes scores detections w =
     (if lt_num i maxDetections then
        postProcessLoop (Suc i) maxDetections boxes classes scores
          (fst (postProcessBody i boxes classes scores detections w))
          (snd (postProcessBody i boxes classes scores detections w))
      else (detections, w))"
  by pat_completeness auto
termination
proof (relation "measure (\<lambda>(i, m, _). (case m of None \<Rightarrow> 0 | Some k \<Rightarrow> nat \<lceil>k\<rceil>) - i)")
  show "wf (measure (\<lambda>(i, m, _). (case m of None \<Rightarrow> 0 | Some k \<Rightarrow> nat \<lceil>k\<rceil>) - i))"
    by simp
qed (auto simp: lt_num_def split: option.splits, linarith+)

declare postProcessLoop.simps [simp del]

text \<open>
  The body of the \<^verbatim>\<open>try\<close>: \<^verbatim>\<open>predictions[k].data()\<close> throws a TypeError when the
  \<open>k\<close>-th tensor is missing; nothing else in the body can throw.
\<close>

definition postProcess_try :: "real list list \<Rightarrow> world \<Rightarrow> error + (DetectedVehicle list \<times> world)" where
  "postProcess_try predictions w =
     (case (nth_opt predictions 0, nth_opt predictions 1, nth_opt predictions 2, nth_opt predictions 3) of
        (Some boxes, Some classes, Some scores, Some numDetections) \<Rightarrow>
          Inr (postProcessLoop 0 (nth_opt numDetections 0) boxes classes scores [] w)
      | _ \<Rightarrow> Inl (TypeError ''Cannot read properties of undefined (reading data)''))"

text \<open>The \<^verbatim>\<open>catch\<close> logs and returns a new empty array.\<close>

definition postProcessDetections ::
  "real list list \<Rightarrow> world \<Rightarrow> error + (DetectedVehicle list \<times> world)" where
  "postProcessDetections predictions w =
     (case postProcess_try predictions w of
        Inr res \<Rightarrow> Inr res
      | Inl e \<Rightarrow> Inr ([], console_log ''Post-processing failed:'' w))"

subsection \<open>simulateDetection\<close>

definition vehicleTypes :: "VehicleType list" where
  "vehicleTypes = filter (\<lambda>t. t \<noteq> UNKNOWN) Object_values_VehicleType"

text \<open>
  One round of the simulation loop: the random type, then the object literal with its
  fields evaluated in order. The index is within the table: the rounded product of a
  draw and 6 is less than 6 (\<open>simulated_type\<close> below).
\<close>

definition simulated_vehicle :: "nat \<Rightarrow> world \<Rightarrow> DetectedVehicle \<times> world" where
  "simulated_vehicle i w =
     (let (r, w1) = Math_random w;
          randomType = vehicleTypes ! nat \<lfloor>to_double (r * real (length vehicleTypes))\<rfloor>;
          (now, w2) = Date_now w1;
          (rc, w3) = Math_random w2;
          (rx, w4) = Math_random w3;
          (ry, w5) = Math_random w4;
          (rw, w6) = Math_random w5;
          (rh, w7) = Math_random w6;
          (plate, w8) = generateLicensePlate w7;
          (stamp, w9) = Date_now w8
      in (\<lparr>id_dv = ''vehicle_'' @ show_nat now @ ''_'' @ show_nat i,
           type_dv = randomType,
           confidence = to_double (to_double 0.7 + to_double (rc * to_double 0.3)),
           bbox = \<lparr>x_bb = Num (to_double (rx * 300)),
                    y_bb = Num (to_double (ry * 300)),
                    width_bb = Num (to_double (50 + to_double (rw * 100))),
                    height_bb = Num (to_double (30 + to_double (rh * 80)))\<rparr>,
           licensePlate = Some plate,
           timestamp = stamp\<rparr>, w9))"

function simulateLoop ::
  "nat \<Rightarrow> int \<Rightarrow> DetectedVehicle list \<Rightarrow> world \<Rightarrow> DetectedVehicle list \<times> world" where
  "simulateLoop i numDetections detections w =
     (if int i < numDetections then
        simulateLoop (Suc i) numDetections
          (detections @ [fst (simulated_vehicle i w)]) (snd (simulated_vehicle i w))
      else (detections, w))"
  by pat_completeness auto
termination
  by (relation "measure (\<lambda>(i, n, _). nat n - i)") auto

declare simulateLoop.simps [simp del]

definition simulateDetection :: "world \<Rightarrow> DetectedVehicle list \<times> world" where
  "simulateDetection w =
     (let (r, w1) = Math_random w
      in if r < to_double 0.3 then ([], w1)
         else (let (r2, w2) = Math_random w1;
                   numDetections = \<lfloor>to_double (r2 * 3)\<rfloor> + 1
               in simulateLoop 0 numDetections [] w2))"

section \<open>The service object\<close>

subsection \<open>Objects and references\<close>

text \<open>
  Count objects, arrays and detection objects live in a store and are used through
  references, so that two references to one object see each other's writes. A new
  object takes the next unused reference. The lists built by
  \<open>postProcessDetections\<close> and \<open>simulateDetection\<close> become objects of the store when
  they are handed to the service (\<open>new_detections\<close>): before that no reference to
  them exists outside the function that builds them.
\<close>

type_synonym ref = nat

record heap =
  counts_at :: "ref \<Rightarrow> VehicleCount"
  arrays_at :: "ref \<Rightarrow> ref list"
  vehicles_at :: "ref \<Rightarrow> DetectedVehicle"
  next_ref :: ref

definition new_count :: "VehicleCount \<Rightarrow> heap \<Rightarrow> ref \<times> heap" where
  "new_count c h =
     (next_ref h, h\<lparr>counts_at := (counts_at h)(next_ref h := c), next_ref := Suc (next_ref h)\<rparr>)"

definition new_array :: "ref list \<Rightarrow> heap \<Rightarrow> ref \<times> heap" where
  "new_array rs h =
     (next_ref h, h\<lparr>arrays_at := (arrays_at h)(next_ref h := rs), next_ref := Suc (next_ref h)\<rparr>)"

definition new_vehicle :: "DetectedVehicle \<Rightarrow> heap \<Rightarrow> ref \<times> heap" where
  "new_vehicle d h =
     (next_ref h, h\<lparr>vehicles_at := (vehicles_at h)(next_ref h := d), next_ref := Suc (next_ref h)\<rparr>)"

fun new_vehicles :: "DetectedVehicle list \<Rightarrow> heap \<Rightarrow> ref list \<times> heap" where
  "new_vehicles [] h = ([], h)"
| "new_vehicles (d # ds) h =
     (let (r, h1) = new_vehicle d h;
          (rs, h2) = new_vehicles ds h1
      in (r # rs, h2))"

definition new_detections :: "DetectedVehicle list \<Rightarrow> heap \<Rightarrow> ref \<times> heap" where
  "new_detections ds h =
     (let (rs, h1) = new_vehicles ds h
      in new_array rs h1)"

subsection \<open>Fields and construction\<close>

record service =
  model :: "GraphModel option"
  detectedVehicles :: ref
  isModelLoaded :: bool
  vehicleCount :: ref

definition zero_count :: VehicleCount where
  "zero_count = \<lparr>car = 0, bus = 0, truck = 0, motorcycle = 0, bicycle = 0, van = 0,
                  unknown = 0, total_count = 0\<rparr>"

text \<open>The field initialisers of the class, run once for the exported instance.\<close>

definition new_service :: "heap \<Rightarrow> service \<times> heap" where
  "new_service h =
     (let (a, h1) = new_array [] h;
          (c, h2) = new_count zero_count h1
      in (\<lparr>model = None, detectedVehicles = a, isModelLoaded = False, vehicleCount = c\<rparr>, h2))"

subsection \<open>initialize\<close>

text \<open>
  The two awaited steps are given by their outcomes: \<open>ready\<close> is the error of
  \<^verbatim>\<open>tf.ready()\<close> if it rejects, \<open>loaded\<close> the model or the error of
  \<^verbatim>\<open>tf.loadGraphModel\<close>. The result is a sum so that an exception leaving the method
  would be a value \<open>Inl\<close>.
\<close>

definition initialize_catch :: "error \<Rightarrow> service \<Rightarrow> world \<Rightarrow> error + (service \<times> world)" where
  "initialize_catch e s w =
     Inr (s\<lparr>isModelLoaded := False\<rparr>,
          console_log ''Falling back to simulation mode''
            (console_log ''Failed to initialize TensorFlow:'' w))"

definition initialize ::
  "error option \<Rightarrow> error + GraphModel \<Rightarrow> service \<Rightarrow> world \<Rightarrow> error + (service \<times> world)" where
  "initialize ready loaded s w =
     (case ready of
        Some e \<Rightarrow> initialize_catch e s w
      | None \<Rightarrow>
          (let w1 = console_log ''TensorFlow.js ready'' w;
               w2 = console_log ''Loading vehicle detection model...'' w1
           in case loaded of
                Inl e \<Rightarrow> initialize_catch e s w2
              | Inr m \<Rightarrow>
                  Inr (s\<lparr>model := Some m, isModelLoaded := True\<rparr>,
                       console_log ''Vehicle detection model loaded successfully'' w2)))"

definition isRealModelLoaded :: "service \<Rightarrow> bool" where
  "isRealModelLoaded s = isModelLoaded s"

subsection \<open>updateVehicleCounts, detectVehicles\<close>

text \<open>\<^verbatim>\<open>this.vehicleCount[detection.type]++; this.vehicleCount.total++\<close>\<close>

definition count_one :: "VehicleType \<Rightarrow> VehicleCount \<Rightarrow> VehicleCount" where
  "count_one t c =
     (let c1 = (case t of
                  CAR \<Rightarrow> c\<lparr>car := car c + 1\<rparr>
                | BUS \<Rightarrow> c\<lparr>bus := bus c + 1\<rparr>
                | TRUCK \<Rightarrow> c\<lparr>truck := truck c + 1\<rparr>
                | MOTORCYCLE \<Rightarrow> c\<lparr>motorcycle := motorcycle c + 1\<rparr>
                | BICYCLE \<Rightarrow> c\<lparr>bicycle := bicycle c + 1\<rparr>
                | VAN \<Rightarrow> c\<lparr>van := van c + 1\<rparr>
                | UNKNOWN \<Rightarrow> c\<lparr>unknown := unknown c + 1\<rparr>)
      in c1\<lparr>total_count := total_count c1 + 1\<rparr>)"

fun updateVehicleCounts :: "service \<Rightarrow> ref list \<Rightarrow> heap \<Rightarrow> heap" where
  "updateVehicleCounts s [] h = h"
| "updateVehicleCounts s (r # rs) h =
     updateVehicleCounts s rs
       (h\<lparr>counts_at := (counts_at h)
             (vehicleCount s := count_one (type_dv (vehicles_at h r)) (counts_at h (vehicleCount s)))\<rparr>)"

text \<open>\<^verbatim>\<open>this.detectedVehicles.push(...detections)\<close>\<close>

definition push_all :: "ref \<Rightarrow> ref list \<Rightarrow> heap \<Rightarrow> heap" where
  "push_all a rs h = h\<lparr>arrays_at := (arrays_at h)(a := arrays_at h a @ rs)\<rparr>"

text \<open>
  \<open>raw\<close> is what loading the image, preprocessing it and \<^verbatim>\<open>model.predict\<close> give: the
  data of the output tensors, or the error one of these steps throws.
\<close>

definition runRealDetection ::
  "error + real list list \<Rightarrow> world \<Rightarrow> error + (DetectedVehicle list \<times> world)" where
  "runRealDetection raw w =
     (case raw of
        Inl e \<Rightarrow> Inr ([], console_log ''Real detection failed:'' w)
      | Inr predictions \<Rightarrow>
          (case postProcessDetections predictions w of
             Inl e \<Rightarrow> Inr ([], console_log ''Real detection failed:'' w)
           | Inr res \<Rightarrow> Inr res))"

text \<open>
  The two branches of \<open>detectVehicles\<close>. The outer \<^verbatim>\<open>catch\<close> logs and throws the
  error again, so an error of \<open>runRealDetection\<close> would leave the method as \<open>Inl\<close>.
\<close>

definition detect_real ::
  "service \<Rightarrow> heap \<Rightarrow> world \<Rightarrow> error + real list list \<Rightarrow> error + (ref \<times> heap \<times> world)" where
  "detect_real s h w raw =
     (case runRealDetection raw w of
        Inl e \<Rightarrow> Inl e
      | Inr (ds, w1) \<Rightarrow>
          (let (detections, h1) = new_detections ds h;
               h2 = updateVehicleCounts s (arrays_at h1 detections) h1;
               h3 = push_all (detectedVehicles s) (arrays_at h2 detections) h2
           in Inr (detections, h3, w1)))"

definition detect_simulated ::
  "service \<Rightarrow> heap \<Rightarrow> world \<Rightarrow> error + (ref \<times> heap \<times> world)" where
  "detect_simulated s h w =
     (let w0 = console_log ''Using simulation mode - model not loaded'' w;
          (ds, w1) = simulateDetection w0;
          (simulatedDetections, h1) = new_detections ds h;
          h2 = updateVehicleCounts s (arrays_at h1 simulatedDetections) h1;
          h3 = push_all (detectedVehicles s) (arrays_at h2 simulatedDetections) h2
      in Inr (simulatedDetections, h3, w1))"

definition detectVehicles ::
  "service \<Rightarrow> heap \<Rightarrow> world \<Rightarrow> error + real list list \<Rightarrow> error + (ref \<times> heap \<times> world)" where
  "detectVehicles s h w raw =
     (if isModelLoaded s \<and> model s \<noteq> None then detect_real s h w raw
      else detect_simulated s h w)"

subsection \<open>Reading and resetting\<close>

text \<open>\<^verbatim>\<open>{ ...this.vehicleCount }\<close> and \<^verbatim>\<open>[...this.detectedVehicles]\<close> make a new object.\<close>

definition getVehicleCount :: "service \<Rightarrow> heap \<Rightarrow> ref \<times> heap" where
  "getVehicleCount s h = new_count (counts_at h (vehicleCount s)) h"

definition getDetectedVehicles :: "service \<Rightarrow> heap \<Rightarrow> ref \<times> heap" where
  "getDetectedVehicles s h = new_array (arrays_at h (detectedVehicles s)) h"

definition resetCounts :: "service \<Rightarrow> heap \<Rightarrow> service \<times> heap" where
  "resetCounts s h =
     (let c = counts_at h (vehicleCount s);
          h1 = h\<lparr>counts_at := (counts_at h)
                   (vehicleCount s := c\<lparr>car := 0, bus := 0, truck := 0, motorcycle := 0,
                                         bicycle := 0, van := 0, unknown := 0, total_count := 0\<rparr>)\<rparr>;
          (a, h2) = new_array [] h1
      in (s\<lparr>detectedVehicles := a\<rparr>, h2))"

definition processVideoFrame :: "heap \<Rightarrow> world \<Rightarrow> ref \<times> heap \<times> world" where
  "processVideoFrame h w =
     (let (ds, w1) = simulateDetection w;
          (a, h1) = new_detections ds h
      in (a, h1, w1))"

subsection \<open>Sessions\<close>

text \<open>A session is a sequence of calls of the public methods on the one instance.\<close>

datatype call =
    Initialize "error option" "error + GraphModel"
  | DetectVehicles "error + real list list"
  | GetVehicleCount
  | GetDetectedVehicles
  | IsRealModelLoaded
  | ResetCounts
  | ProcessVideoFrame

fun exec :: "call \<Rightarrow> service \<times> heap \<times> world \<Rightarrow> service \<times> heap \<times> world" where
  "exec (Initialize ready loaded) (s, h, w) =
     (case initialize ready loaded s w of Inl e \<Rightarrow> (s, h, w) | Inr (s', w') \<Rightarrow> (s', h, w'))"
| "exec (DetectVehicles raw) (s, h, w) =
     (case detectVehicles s h w raw of Inl e \<Rightarrow> (s, h, w) | Inr (a, h', w') \<Rightarrow> (s, h', w'))"
| "exec GetVehicleCount (s, h, w) = (s, snd (getVehicleCount s h), w)"
| "exec GetDetectedVehicles (s, h, w) = (s, snd (getDetectedVehicles s h), w)"
| "exec IsRealModelLoaded (s, h, w) = (s, h, w)"
| "exec ResetCounts (s, h, w) = (fst (resetCounts s h), snd (resetCounts s h), w)"
| "exec ProcessVideoFrame (s, h, w) =
     (s, fst (snd (processVideoFrame h w)), snd (snd (processVideoFrame h w)))"

fun run :: "call list \<Rightarrow> service \<times> heap \<times> world \<Rightarrow> service \<times> heap \<times> world" where
  "run [] st = st"
| "run (c # cs) st = run cs (exec c st)"

text \<open>What the two read accessors show: the contents of the objects they return.\<close>

definition snapshot :: "service \<Rightarrow> heap \<Rightarrow> VehicleCount" where
  "snapshot s h = (let (r, h') = getVehicleCount s h in counts_at h' r)"

definition history :: "service \<Rightarrow> heap \<Rightarrow> DetectedVehicle list" where
  "history s h = (let (a, h') = getDetectedVehicles s h in map (vehicles_at h') (arrays_at h' a))"

definition sum_counts :: "VehicleCount \<Rightarrow> nat" where
  "sum_counts c = car c + bus c + truck c + motorcycle c + bicycle c + van c + unknown c"

subsection \<open>Notions used in the statements\<close>

text \<open>The service's two private objects exist in the store.\<close>

definition owns :: "service \<Rightarrow> heap \<Rightarrow> bool" where
  "owns s h = (vehicleCount s < next_ref h \<and> detectedVehicles s < next_ref h)"

text \<open>
  The invariant of a session: the private objects exist, and the count object's total
  is the sum of its seven categories.
\<close>

definition session_inv :: "service \<times> heap \<times> world \<Rightarrow> bool" where
  "session_inv st =
     (case st of (s, h, w) \<Rightarrow>
        owns s h \<and> total_count (counts_at h (vehicleCount s)) = sum_counts (counts_at h (vehicleCount s)))"

text \<open>
  What a caller can do with a reference it holds: assign to the fields of a count
  object, change an array (assign, push, pop), assign to the fields of a detection.
\<close>

definition write_count :: "ref \<Rightarrow> VehicleCount \<Rightarrow> heap \<Rightarrow> heap" where
  "write_count r c h = h\<lparr>counts_at := (counts_at h)(r := c)\<rparr>"

definition write_array :: "ref \<Rightarrow> ref list \<Rightarrow> heap \<Rightarrow> heap" where
  "write_array r xs h = h\<lparr>arrays_at := (arrays_at h)(r := xs)\<rparr>"

definition write_vehicle :: "ref \<Rightarrow> DetectedVehicle \<Rightarrow> heap \<Rightarrow> heap" where
  "write_vehicle r d h = h\<lparr>vehicles_at := (vehicles_at h)(r := d)\<rparr>"

text \<open>How many entries the decoder's loop visits, and which of them it keeps.\<close>

definition considered :: "real option \<Rightarrow> nat" where
  "considered m = (case m of None \<Rightarrow> 0 | Some k \<Rightarrow> nat \<lceil>k\<rceil>)"

definition keeps :: "real list \<Rightarrow> real list \<Rightarrow> nat \<Rightarrow> bool" where
  "keeps classes scores i =
     (case (nth_opt scores i, VEHICLE_CLASS_MAP (className_of (nth_opt classes i))) of
        (Some score, Some vt) \<Rightarrow> score > confidenceThreshold
      | _ \<Rightarrow> False)"

definition kept_entries :: "real list \<Rightarrow> real list \<Rightarrow> real \<Rightarrow> nat list" where
  "kept_entries classes scores K = filter (keeps classes scores) [0..<nat \<lceil>K\<rceil>]"

text \<open>The list a caller of the decoder receives.\<close>

definition decoded :: "real list list \<Rightarrow> world \<Rightarrow> DetectedVehicle list" where
  "decoded predictions w =
     (case postProcessDetections predictions w of Inl e \<Rightarrow> [] | Inr (ds, w') \<Rightarrow> ds)"

text \<open>Every reference in the history array is to an object of the store.\<close>

definition history_allocated :: "service \<Rightarrow> heap \<Rightarrow> bool" where
  "history_allocated s h = (\<forall>r \<in> set (arrays_at h (detectedVehicles s)). r < next_ref h)"

subsection \<open>Concrete inputs\<close>

text \<open>A value of the random source from a real; a world from the numbers it will draw.\<close>

lift_definition unit_of :: "real \<Rightarrow> unit_real"
  is "\<lambda>r. if 0 \<le> r \<and> r < 1 \<and> is_double r then r else 0"
  by (simp add: is_double_def to_double_def round_to_def)

definition world_of :: "(nat \<Rightarrow> real) \<Rightarrow> world" where
  "world_of f = \<lparr>rnd = (\<lambda>n. unit_of (f n)), rnd_pos = 0, clock = (\<lambda>_. 1700000000000),
                  clock_pos = 0, console = []\<rparr>"

definition blank_vehicle :: DetectedVehicle where
  "blank_vehicle =
     \<lparr>id_dv = [], type_dv = UNKNOWN, confidence = 0,
      bbox = \<lparr>x_bb = Num 0, y_bb = Num 0, width_bb = Num 0, height_bb = Num 0\<rparr>,
      licensePlate = None, timestamp = 0\<rparr>"

definition heap0 :: heap where
  "heap0 = \<lparr>counts_at = (\<lambda>_. zero_count), arrays_at = (\<lambda>_. []),
             vehicles_at = (\<lambda>_. blank_vehicle), next_ref = 0\<rparr>"

definition world0 :: world where
  "world0 = world_of (\<lambda>_. 1 / 2)"

text \<open>Two worlds whose draws make the simulation return three vehicles each.\<close>

definition world_cbt :: world where
  "world_cbt = world_of (\<lambda>n. if n = 0 then 1 / 2 else if n = 1 then 3 / 4
                              else if n = 15 then 1 / 4 else if n = 28 then 3 / 8 else 0)"

definition world_mbv :: world where
  "world_mbv = world_of (\<lambda>n. if n = 0 then 1 / 2 else if n = 1 then 3 / 4
                              else if n = 2 then 1 / 2 else if n = 15 then 3 / 4
                              else if n = 28 then 7 / 8 else 0)"

text \<open>
  A world that makes the simulation return one vehicle, whose width is drawn from the
  largest number below 1.
\<close>

definition world_wide :: world where
  "world_wide = world_of (\<lambda>n. if n = 0 then 1 / 2 else if n = 6 then 1 - 1 / 2 ^ 53 else 0)"

text \<open>A service that has counted two cars, and a short session.\<close>

definition busy_service :: service where
  "busy_service = \<lparr>model = None, detectedVehicles = 0, isModelLoaded = False, vehicleCount = 1\<rparr>"

definition busy_heap :: heap where
  "busy_heap =
     \<lparr>counts_at = (\<lambda>_. zero_count)(1 := zero_count\<lparr>car := 2, total_count := 2\<rparr>),
      arrays_at = (\<lambda>_. [])(0 := [2, 3]),
      vehicles_at = (\<lambda>_. blank_vehicle\<lparr>type_dv := CAR\<rparr>),
      next_ref = 4\<rparr>"

definition session0 :: "call list" where
  "session0 = [DetectVehicles (Inl (Error ''no image'')), GetVehicleCount,
               Initialize None (Inr (GraphModel ''ssd_mobilenet_v2'')),
               DetectVehicles (Inr [[0.125, 0.25, 0.5, 0.75], [2], [0.75], [1]]),
               ResetCounts, ProcessVideoFrame, DetectVehicles (Inr [])]"


section \<open>Properties of the store\<close>

lemma snapshot_eq: "snapshot s h = counts_at h (vehicleCount s)"
  by (simp add: snapshot_def getVehicleCount_def new_count_def)

lemma history_eq: "history s h = map (vehicles_at h) (arrays_at h (detectedVehicles s))"
  by (simp add: history_def getDetectedVehicles_def new_array_def)

lemma count_one_sum:
  "total_count c = sum_counts c \<Longrightarrow> total_count (count_one t c) = sum_counts (count_one t c)"
  by (cases t) (simp_all add: count_one_def sum_counts_def)

lemma updateVehicleCounts_next [simp]: "next_ref (updateVehicleCounts s rs h) = next_ref h"
  by (induction rs arbitrary: h) simp_all

lemma updateVehicleCounts_arrays [simp]: "arrays_at (updateVehicleCounts s rs h) = arrays_at h"
  by (induction rs arbitrary: h) simp_all

lemma updateVehicleCounts_vehicles [simp]:
  "vehicles_at (updateVehicleCounts s rs h) = vehicles_at h"
  by (induction rs arbitrary: h) simp_all

lemma updateVehicleCounts_sum:
  "total_count (counts_at h (vehicleCount s)) = sum_counts (counts_at h (vehicleCount s)) \<Longrightarrow>
   total_count (counts_at (updateVehicleCounts s rs h) (vehicleCount s)) =
   sum_counts (counts_at (updateVehicleCounts s rs h) (vehicleCount s))"
  by (induction rs arbitrary: h) (simp_all add: count_one_sum)

lemma new_vehicles_counts [simp]: "counts_at (snd (new_vehicles ds h)) = counts_at h"
  by (induction ds arbitrary: h) (simp_all add: new_vehicle_def case_prod_beta)

lemma new_vehicles_arrays [simp]: "arrays_at (snd (new_vehicles ds h)) = arrays_at h"
  by (induction ds arbitrary: h) (simp_all add: new_vehicle_def case_prod_beta)

lemma new_vehicles_next [simp]: "next_ref (snd (new_vehicles ds h)) = next_ref h + length ds"
  by (induction ds arbitrary: h) (simp_all add: new_vehicle_def case_prod_beta)

lemma new_detections_counts [simp]: "counts_at (snd (new_detections ds h)) = counts_at h"
  by (simp add: new_detections_def new_array_def case_prod_beta)

lemma new_detections_next [simp]:
  "next_ref (snd (new_detections ds h)) = Suc (next_ref h + length ds)"
  by (simp add: new_detections_def new_array_def case_prod_beta)

lemma new_detections_fst [simp]: "fst (new_detections ds h) = next_ref h + length ds"
  by (simp add: new_detections_def new_array_def case_prod_beta)

lemma push_all_simps [simp]:
  "next_ref (push_all a rs h) = next_ref h"
  "counts_at (push_all a rs h) = counts_at h"
  "vehicles_at (push_all a rs h) = vehicles_at h"
  by (simp_all add: push_all_def)

lemma record_inv:
  assumes "session_inv (s, h, w)"
  shows "session_inv (s, push_all a xs (updateVehicleCounts s ys (snd (new_detections ds h))), w')"
  using assms by (simp add: session_inv_def owns_def updateVehicleCounts_sum)

lemma detect_real_inv:
  assumes "session_inv (s, h, w)" and "detect_real s h w raw = Inr (a, h', w')"
  shows "session_inv (s, h', w')"
proof -
  from assms(2) obtain ds w1 where "runRealDetection raw w = Inr (ds, w1)"
    by (auto simp: detect_real_def split: sum.splits)
  with assms(2) have
    "\<exists>b xs ys. h' = push_all b xs (updateVehicleCounts s ys (snd (new_detections ds h)))"
    by (auto simp: detect_real_def Let_def case_prod_beta)
  then show ?thesis using record_inv [OF assms(1)] by auto
qed

lemma detect_simulated_inv:
  assumes "session_inv (s, h, w)" and "detect_simulated s h w = Inr (a, h', w')"
  shows "session_inv (s, h', w')"
proof -
  define ds where
    "ds = fst (simulateDetection (console_log ''Using simulation mode - model not loaded'' w))"
  from assms(2) have
    "\<exists>b xs ys. h' = push_all b xs (updateVehicleCounts s ys (snd (new_detections ds h)))"
    by (auto simp: detect_simulated_def Let_def case_prod_beta ds_def)
  then show ?thesis using record_inv [OF assms(1)] by auto
qed

lemma exec_inv: "session_inv st \<Longrightarrow> session_inv (exec c st)"
proof -
  obtain s h w where st: "st = (s, h, w)" by (cases st)
  assume i: "session_inv st"
  show ?thesis
  proof (cases c)
    case (Initialize ready loaded)
    then show ?thesis using i
      by (auto simp: st session_inv_def initialize_def initialize_catch_def owns_def Let_def
          split: option.splits sum.splits)
  next
    case (DetectVehicles raw)
    show ?thesis
    proof (cases "detectVehicles s h w raw")
      case (Inl e)
      then show ?thesis using i by (simp add: st DetectVehicles)
    next
      case (Inr res)
      obtain a h' w' where res: "res = (a, h', w')" by (cases res)
      have "session_inv (s, h', w')"
        using Inr res detect_real_inv [OF i [unfolded st]] detect_simulated_inv [OF i [unfolded st]]
        by (auto simp: detectVehicles_def split: if_splits)
      then show ?thesis by (simp add: st DetectVehicles Inr res)
    qed
  next
    case GetVehicleCount
    then show ?thesis using i
      by (auto simp: st session_inv_def getVehicleCount_def new_count_def owns_def)
  next
    case GetDetectedVehicles
    then show ?thesis using i
      by (auto simp: st session_inv_def getDetectedVehicles_def new_array_def owns_def)
  next
    case IsRealModelLoaded
    then show ?thesis using i by (simp add: st)
  next
    case ResetCounts
    then show ?thesis using i
      by (auto simp: st session_inv_def resetCounts_def new_array_def owns_def Let_def
          sum_counts_def)
  next
    case ProcessVideoFrame
    then show ?thesis using i
      by (simp add: st session_inv_def processVideoFrame_def owns_def Let_def case_prod_beta)
  qed
qed

lemma run_inv: "session_inv st \<Longrightarrow> session_inv (run cs st)"
  by (induction cs arbitrary: st) (simp_all add: exec_inv)

lemma new_service_inv: "session_inv (fst (new_service h0), snd (new_service h0), w0)"
  by (simp add: session_inv_def new_service_def new_array_def new_count_def owns_def
      zero_count_def sum_counts_def)

text \<open>
  C1. After any sequence of calls of the public methods (detections on the real or on
  the simulation path, resets, reads) on a new service, the snapshot's total equals the
  sum of its per-category counts.
\<close>

theorem total_is_sum_of_counts:
  "run cs (fst (new_service h0), snd (new_service h0), w0) = (s, h, w) \<Longrightarrow>
   total_count (snapshot s h) = sum_counts (snapshot s h)"
  using run_inv [OF new_service_inv, of cs h0 w0]
  by (simp add: session_inv_def snapshot_eq)

text \<open>
  C2. Whatever the state before, after \<open>resetCounts\<close> the snapshot is all zero, with
  total 0, and the history is empty.
\<close>

theorem reset_then_snapshot:
  "resetCounts s h = (s1, h1) \<Longrightarrow>
   snapshot s1 h1 = zero_count \<and> total_count (snapshot s1 h1) = 0 \<and> history s1 h1 = []"
  by (auto simp: resetCounts_def snapshot_eq history_eq new_array_def zero_count_def Let_def)

theorem total_is_sum_of_counts_witness:
  "total_count (snapshot (fst (run session0 (fst (new_service heap0), snd (new_service heap0), world0)))
                         (fst (snd (run session0 (fst (new_service heap0), snd (new_service heap0), world0))))) =
   sum_counts (snapshot (fst (run session0 (fst (new_service heap0), snd (new_service heap0), world0)))
                        (fst (snd (run session0 (fst (new_service heap0), snd (new_service heap0), world0)))))"
  using total_is_sum_of_counts [of session0 heap0 world0
      "fst (run session0 (fst (new_service heap0), snd (new_service heap0), world0))"
      "fst (snd (run session0 (fst (new_service heap0), snd (new_service heap0), world0)))"
      "snd (snd (run session0 (fst (new_service heap0), snd (new_service heap0), world0)))"]
  by simp

theorem reset_then_snapshot_witness:
  "total_count (snapshot busy_service busy_heap) = 2 \<and>
   length (history busy_service busy_heap) = 2 \<and>
   snapshot (fst (resetCounts busy_service busy_heap)) (snd (resetCounts busy_service busy_heap)) = zero_count \<and>
   total_count (snapshot (fst (resetCounts busy_service busy_heap)) (snd (resetCounts busy_service busy_heap))) = 0 \<and>
   history (fst (resetCounts busy_service busy_heap)) (snd (resetCounts busy_service busy_heap)) = []"
proof -
  have before: "total_count (snapshot busy_service busy_heap) = 2 \<and>
                length (history busy_service busy_heap) = 2"
    by (simp add: snapshot_eq history_eq busy_service_def busy_heap_def zero_count_def)
  have after: "snapshot (fst (resetCounts busy_service busy_heap)) (snd (resetCounts busy_service busy_heap)) = zero_count \<and>
     total_count (snapshot (fst (resetCounts busy_service busy_heap)) (snd (resetCounts busy_service busy_heap))) = 0 \<and>
     history (fst (resetCounts busy_service busy_heap)) (snd (resetCounts busy_service busy_heap)) = []"
    by (rule reset_then_snapshot [OF prod.collapse [symmetric]])
  from before after show ?thesis by blast
qed


section \<open>Properties of the rounding\<close>

lemma round_even_int [simp]: "round_even (of_int n) = n"
  by (simp add: round_even_def)

lemma round_even_bounds: "of_int (round_even x) \<le> x + 1 / 2" "x - 1 / 2 \<le> of_int (round_even x)"
  unfolding round_even_def Let_def by (auto; linarith)+

lemma round_even_mono: "x \<le> y \<Longrightarrow> round_even x \<le> round_even y"
proof -
  assume xy: "x \<le> y"
  show ?thesis
  proof (cases "\<lfloor>x\<rfloor> = \<lfloor>y\<rfloor>")
    case True
    then show ?thesis using xy
      unfolding round_even_def Let_def by auto
  next
    case False
    with xy have "\<lfloor>x\<rfloor> < \<lfloor>y\<rfloor>" using floor_mono [OF xy] by linarith
    then have "\<lfloor>x\<rfloor> + 1 \<le> \<lfloor>y\<rfloor>" by simp
    moreover have "round_even x \<le> \<lfloor>x\<rfloor> + 1"
      unfolding round_even_def Let_def by auto
    moreover have "\<lfloor>y\<rfloor> \<le> round_even y"
      unfolding round_even_def Let_def by auto
    ultimately show ?thesis by linarith
  qed
qed

lemma powr_powi: "2 powr real_of_int k = (2::real) powi k"
  by (rule powr_real_of_int') simp_all

lemma floor_log2_powi:
  "0 < x \<Longrightarrow> \<lfloor>log 2 x\<rfloor> = k \<longleftrightarrow> 2 powi k \<le> x \<and> x < 2 powi (k + 1)"
  using floor_log_eq_powr_iff [of x 2 k] powr_powi [of k] powr_powi [of "k + 1"]
  by simp

lemma powi_pos [simp]: "0 < (2::real) powi k"
  by (simp add: power_int_def)

lemma powi_le: "j \<le> k \<Longrightarrow> (2::real) powi j \<le> 2 powi k"
  by (rule power_int_increasing) simp_all

lemma powi_diff_nat: "j \<le> k \<Longrightarrow> (2::real) powi k / 2 powi j = 2 ^ nat (k - j)"
proof -
  assume "j \<le> k"
  then have "(2::real) powi k = 2 powi j * 2 powi (k - j)"
    by (simp add: power_int_add [symmetric])
  moreover have "(2::real) powi (k - j) = 2 ^ nat (k - j)"
    using \<open>j \<le> k\<close> by (simp add: power_int_def)
  ultimately show ?thesis by simp
qed


lemma ulp_exp_ge: "emin \<le> ulp_exp p emin x"
  by (simp add: ulp_exp_def)

lemma round_to_0 [simp]: "round_to p emin 0 = 0"
  by (simp add: round_to_def)

lemma log2_lt_powi: "0 < x \<Longrightarrow> x < 2 powi k \<Longrightarrow> \<lfloor>log 2 x\<rfloor> < k"
proof -
  assume x: "0 < x" "x < 2 powi k"
  have "2 powi \<lfloor>log 2 x\<rfloor> \<le> x"
    using floor_log2_powi [OF x(1), of "\<lfloor>log 2 x\<rfloor>"] by simp
  with x(2) have "(2::real) powi \<lfloor>log 2 x\<rfloor> < 2 powi k" by linarith
  then show ?thesis using powi_le [of k "\<lfloor>log 2 x\<rfloor>"] by linarith
qed

text \<open>A number with at most \<open>p\<close> significant bits and spacing at least \<open>2 powi emin\<close> is not changed.\<close>

lemma round_to_exact:
  assumes "x = of_int m * 2 powi j" and "\<bar>m\<bar> < 2 ^ p" and "emin \<le> j"
  shows "round_to p emin x = x"
proof (cases "x = 0")
  case True
  then show ?thesis by simp
next
  case False
  then have m: "m \<noteq> 0" using assms(1) by auto
  have "\<bar>x\<bar> = of_int \<bar>m\<bar> * 2 powi j"
    by (simp add: assms(1) abs_mult)
  also have "\<dots> < 2 ^ p * 2 powi j"
    using assms(2) by (simp add: of_int_less_iff [symmetric, where 'a = real] del: of_int_less_iff)
  also have "\<dots> = 2 powi (int p + j)"
    by (simp add: power_int_add)
  finally have "\<lfloor>log 2 \<bar>x\<bar>\<rfloor> < int p + j"
    using False by (intro log2_lt_powi) simp_all
  then have u: "ulp_exp p emin x \<le> j"
    using assms(3) by (simp add: ulp_exp_def)
  define u where "u = ulp_exp p emin x"
  have "x / 2 powi u = of_int m * (2 powi j / 2 powi u)"
    by (simp add: assms(1))
  also have "\<dots> = of_int (m * 2 ^ nat (j - u))"
    using u by (simp add: powi_diff_nat u_def)
  finally have "of_int (round_even (x / 2 powi u)) = x / 2 powi u"
    by (simp del: of_int_mult of_int_power)
  then show ?thesis
    using False by (simp add: round_to_def u_def [symmetric])
qed

text \<open>Evaluation of the rounding when the binade of \<open>x\<close> is known.\<close>

lemma round_to_eval:
  assumes "2 powi e \<le> \<bar>x\<bar>" and "\<bar>x\<bar> < 2 powi (e + 1)"
  shows "round_to p emin x =
           2 powi (max (e - int p + 1) emin) *
           of_int (round_even (x / 2 powi (max (e - int p + 1) emin)))"
proof -
  have "0 < \<bar>x\<bar>" using assms(1) powi_pos [of e] by linarith
  then have "\<lfloor>log 2 \<bar>x\<bar>\<rfloor> = e"
    using assms by (simp add: floor_log2_powi)
  moreover have "x \<noteq> 0" using \<open>0 < \<bar>x\<bar>\<close> by simp
  ultimately show ?thesis
    by (simp add: round_to_def ulp_exp_def)
qed

lemma round_to_nonneg: "0 \<le> x \<Longrightarrow> 0 \<le> round_to p emin x"
proof -
  assume "0 \<le> x"
  then have "round_even 0 \<le> round_even (x / 2 powi ulp_exp p emin x)"
    by (intro round_even_mono) simp
  then have "0 \<le> round_even (x / 2 powi ulp_exp p emin x)"
    using round_even_int [of 0] by simp
  then show ?thesis
    by (simp add: round_to_def)
qed

text \<open>Below a power of two, the rounded value is at most that power.\<close>

lemma round_to_le_powi:
  assumes "0 < x" and "x < 2 powi k" and "emin \<le> k" and "0 < p"
  shows "round_to p emin x \<le> 2 powi k"
proof -
  define u where "u = ulp_exp p emin x"
  have "\<lfloor>log 2 \<bar>x\<bar>\<rfloor> < k"
    using assms(1,2) log2_lt_powi [of x k] by simp
  then have u: "u \<le> k"
    using assms(3,4) by (simp add: u_def ulp_exp_def)
  have "x / 2 powi u \<le> 2 powi k / 2 powi u"
    using assms(2) by (simp add: divide_right_mono)
  also have "\<dots> = of_int (2 ^ nat (k - u))"
    using u by (simp add: powi_diff_nat)
  finally have "round_even (x / 2 powi u) \<le> round_even (of_int (2 ^ nat (k - u)))"
    by (rule round_even_mono)
  then have "of_int (round_even (x / 2 powi u)) \<le> (2::real) ^ nat (k - u)"
    by (simp only: round_even_int) (metis of_int_le_iff of_int_numeral of_int_power)
  then have "(2::real) powi u * of_int (round_even (x / 2 powi u)) \<le> 2 powi u * (2 powi k / 2 powi u)"
    using u by (simp add: powi_diff_nat)
  then show ?thesis
    using assms(1) by (simp add: round_to_def u_def [symmetric])
qed

text \<open>From a power of two on, with spacing a divisor of it, the rounded value is at least that power.\<close>

lemma round_to_ge_powi:
  assumes "2 powi k \<le> x" and "ulp_exp p emin x \<le> k"
  shows "2 powi k \<le> round_to p emin x"
proof -
  define u where "u = ulp_exp p emin x"
  have x: "0 < x" using assms(1) powi_pos [of k] by linarith
  have "of_int (2 ^ nat (k - u)) = (2::real) powi k / 2 powi u"
    using assms(2) by (simp add: powi_diff_nat u_def)
  also have "\<dots> \<le> x / 2 powi u"
    using assms(1) by (simp add: divide_right_mono)
  finally have "round_even (of_int (2 ^ nat (k - u))) \<le> round_even (x / 2 powi u)"
    by (rule round_even_mono)
  then have "(2::real) ^ nat (k - u) \<le> of_int (round_even (x / 2 powi u))"
    by (simp only: round_even_int) (metis of_int_le_iff of_int_numeral of_int_power)
  then have "(2::real) powi u * (2 powi k / 2 powi u) \<le> 2 powi u * of_int (round_even (x / 2 powi u))"
    using assms(2) by (simp add: powi_diff_nat u_def)
  then show ?thesis
    using x by (simp add: round_to_def u_def [symmetric])
qed

lemma round_to_mono:
  assumes "0 \<le> x" and "x \<le> y" and "0 < p"
  shows "round_to p emin x \<le> round_to p emin y"
proof (cases "x = 0")
  case True
  then show ?thesis using round_to_nonneg [of y p emin] assms by simp
next
  case False
  with assms have x: "0 < x" and y: "0 < y" by simp_all
  show ?thesis
  proof (cases "ulp_exp p emin x = ulp_exp p emin y")
    case True
    have "round_even (x / 2 powi ulp_exp p emin y) \<le> round_even (y / 2 powi ulp_exp p emin y)"
      using assms(2) by (intro round_even_mono divide_right_mono) simp_all
    then show ?thesis
      using x y True by (simp add: round_to_def)
  next
    case False
    define k where "k = \<lfloor>log 2 y\<rfloor>"
    have "log 2 x \<le> log 2 y" using x assms(2) by simp
    then have le: "\<lfloor>log 2 x\<rfloor> \<le> k" unfolding k_def by (rule floor_mono)
    with False have lt: "\<lfloor>log 2 x\<rfloor> < k"
      using x y by (auto simp: ulp_exp_def k_def)
    have big: "emin < k - int p + 1"
      using False le x y by (auto simp: ulp_exp_def k_def max_def split: if_splits)
    have xk: "x < 2 powi k"
      using floor_log2_powi [OF x, of "\<lfloor>log 2 x\<rfloor>"] lt
        powi_le [of "\<lfloor>log 2 x\<rfloor> + 1" k] by simp
    have ky: "2 powi k \<le> y"
      using floor_log2_powi [OF y, of k] by (simp add: k_def)
    have "round_to p emin x \<le> 2 powi k"
      using x xk big assms(3) by (intro round_to_le_powi) linarith+
    also have "\<dots> \<le> round_to p emin y"
    proof -
      have "ulp_exp p emin y \<le> k"
        using big assms(3) y by (simp add: ulp_exp_def k_def)
      with ky show ?thesis by (rule round_to_ge_powi)
    qed
    finally show ?thesis .
  qed
qed


lemma to_double_0 [simp]: "to_double 0 = 0"
  by (simp add: to_double_def)

lemma to_double_nonneg: "0 \<le> x \<Longrightarrow> 0 \<le> to_double x"
  unfolding to_double_def by (rule round_to_nonneg)

lemma to_double_mono: "0 \<le> x \<Longrightarrow> x \<le> y \<Longrightarrow> to_double x \<le> to_double y"
  unfolding to_double_def by (rule round_to_mono) simp_all

text \<open>Two sufficient conditions for a number to be a binary64 value, for evaluation.\<close>

lemma round_to_dyadic:
  assumes "x * 2 ^ k \<in> \<int>" and "\<bar>x\<bar> * 2 ^ k < 2 ^ p" and "emin \<le> - int k"
  shows "round_to p emin x = x"
proof -
  from assms(1) obtain m :: int where m: "x * 2 ^ k = of_int m"
    by (auto elim: Ints_cases)
  have "x = of_int m * 2 powi (- int k)"
    using m by (simp add: power_int_minus_divide field_simps)
  moreover have "\<bar>m\<bar> < 2 ^ p"
  proof -
    have "real_of_int \<bar>m\<bar> = \<bar>x\<bar> * 2 ^ k"
      using arg_cong [OF m, of abs] by (simp add: abs_mult)
    with assms(2) have "real_of_int \<bar>m\<bar> < real_of_int (2 ^ p)" by simp
    then show ?thesis by (simp only: of_int_less_iff)
  qed
  ultimately show ?thesis
    using assms(3) by (rule round_to_exact)
qed

lemma to_double_small: "x * 2 ^ 53 \<in> \<int> \<Longrightarrow> \<bar>x\<bar> < 1 \<Longrightarrow> to_double x = x"
  unfolding to_double_def by (rule round_to_dyadic [where k = 53]) simp_all

lemma to_double_fine: "x * 2 ^ 26 \<in> \<int> \<Longrightarrow> \<bar>x\<bar> < 2 ^ 27 \<Longrightarrow> to_double x = x"
  unfolding to_double_def by (rule round_to_dyadic [where k = 26]) simp_all

lemma double_03: "to_double 0.3 = 5404319552844595 / 2 ^ 54"
  unfolding to_double_def
  by (subst round_to_eval [where e = "- 2"]) (simp_all add: round_even_def power_int_minus_divide)

lemma double_07: "to_double 0.7 = 3152519739159347 / 2 ^ 52"
  unfolding to_double_def
  by (subst round_to_eval [where e = "- 1"]) (simp_all add: round_even_def power_int_minus_divide)

text \<open>The largest binary64 value below 1.\<close>

lemma is_double_below_1:
  assumes "is_double u" and "u < 1"
  shows "u \<le> 1 - 1 / 2 ^ 53"
proof (cases "u < 1 / 2")
  case True
  then show ?thesis by (simp add: field_simps)
next
  case False
  then have "2 powi (- 1) \<le> \<bar>u\<bar>" "\<bar>u\<bar> < 2 powi (- 1 + 1)"
    using assms(2) by (simp_all add: power_int_minus_divide)
  then have "to_double u = 2 powi (- 53) * of_int (round_even (u / 2 powi (- 53)))"
    unfolding to_double_def by (subst round_to_eval [where e = "- 1"]) simp_all
  with assms(1) have "u = 2 powi (- 53) * of_int (round_even (u / 2 powi (- 53)))"
    by (simp add: is_double_def)
  then obtain n :: int where u: "u = of_int n / 2 ^ 53"
    by (simp add: power_int_minus_divide)
  with assms(2) have "real_of_int n < real_of_int (2 ^ 53)"
    by (simp add: field_simps)
  then have "n < 2 ^ 53"
    by (simp only: of_int_less_iff)
  then have "n \<le> 2 ^ 53 - 1"
    by simp
  then have "real_of_int n \<le> real_of_int (2 ^ 53 - 1)"
    by (simp only: of_int_le_iff)
  with u show ?thesis
    by (simp add: field_simps)
qed

lemma unit_real_bounds:
  "0 \<le> Rep_unit_real u" "Rep_unit_real u < 1" "Rep_unit_real u \<le> 1 - 1 / 2 ^ 53"
  using Rep_unit_real [of u] is_double_below_1 [of "Rep_unit_real u"] by simp_all

text \<open>The rounded product of a draw and a constant, at the largest draw.\<close>

lemma top_times:
  "to_double ((1 - 1 / 2 ^ 53) * 3) = 3 - 1 / 2 ^ 51"
  "to_double ((1 - 1 / 2 ^ 53) * 6) = 6 - 1 / 2 ^ 50"
  "to_double ((1 - 1 / 2 ^ 53) * 300) = 300 - 1 / 2 ^ 44"
  "to_double ((1 - 1 / 2 ^ 53) * 100) = 100 - 1 / 2 ^ 46"
  "to_double ((1 - 1 / 2 ^ 53) * 80) = 80 - 1 / 2 ^ 46"
  unfolding to_double_def
      apply (subst round_to_eval [where e = 1], simp, simp, simp add: round_even_def power_int_minus_divide)
     apply (subst round_to_eval [where e = 2], simp, simp, simp add: round_even_def power_int_minus_divide)
    apply (subst round_to_eval [where e = 8], simp, simp, simp add: round_even_def power_int_minus_divide)
   apply (subst round_to_eval [where e = 6], simp, simp, simp add: round_even_def power_int_minus_divide)
  apply (subst round_to_eval [where e = 6], simp, simp, simp add: round_even_def power_int_minus_divide)
  done

lemma top_times_03: "to_double ((1 - 1 / 2 ^ 53) * to_double 0.3) = 2702159776422297 / 2 ^ 53"
  unfolding double_03 unfolding to_double_def
  by (subst round_to_eval [where e = "- 2"]) (simp_all add: round_even_def power_int_minus_divide)

lemma top_sums:
  "to_double (to_double 0.7 + 2702159776422297 / 2 ^ 53) = 1 - 1 / 2 ^ 53"
  "to_double (50 + (100 - 1 / 2 ^ 46)) = 150"
  "to_double (30 + (80 - 1 / 2 ^ 46)) = 110 - 1 / 2 ^ 46"
  unfolding double_07 unfolding to_double_def
    apply (subst round_to_eval [where e = "- 1"], simp, simp, simp add: round_even_def power_int_minus_divide)
   apply (subst round_to_eval [where e = 7], simp, simp, simp add: round_even_def power_int_minus_divide)
  apply (subst round_to_eval [where e = 6], simp, simp, simp add: round_even_def power_int_minus_divide)
  done

text \<open>Rounding to binary32: the decimal numbers of the decoder's examples, as a tensor stores them.\<close>

lemma fround_values:
  "fround 0.1 = 13421773 / 2 ^ 27"
  "fround 0.2 = 13421773 / 2 ^ 26"
  "fround 0.5 = 1 / 2"
  "fround 0.6 = 5033165 / 2 ^ 23"
  "fround 0.3 = 5033165 / 2 ^ 24"
  "fround 0.30001 = 10066665 / 2 ^ 25"
  unfolding fround_def
       apply (subst round_to_eval [where e = "- 4"], simp, simp, simp add: round_even_def power_int_minus_divide)
      apply (subst round_to_eval [where e = "- 3"], simp, simp, simp add: round_even_def power_int_minus_divide)
     apply (subst round_to_eval [where e = "- 1"], simp, simp, simp add: round_even_def power_int_minus_divide)
    apply (subst round_to_eval [where e = "- 1"], simp, simp, simp add: round_even_def power_int_minus_divide)
   apply (subst round_to_eval [where e = "- 2"], simp, simp, simp add: round_even_def power_int_minus_divide)
  apply (subst round_to_eval [where e = "- 2"], simp, simp, simp add: round_even_def power_int_minus_divide)
  done



lemma fround_dyadic:
  "x * 2 ^ k \<in> \<int> \<Longrightarrow> \<bar>x\<bar> * 2 ^ k < 2 ^ 24 \<Longrightarrow> k \<le> 149 \<Longrightarrow> fround x = x"
  unfolding fround_def by (rule round_to_dyadic [where k = k]) simp_all

text \<open>A binary32 value has 24 significant bits, so its product with 320 is a binary64 value.\<close>

lemma float32_form:
  assumes "is_float32 x"
  obtains m :: int and j :: int where "x = of_int m * 2 powi j" and "\<bar>m\<bar> < 2 ^ 24" and "- 149 \<le> j"
proof (cases "x = 0")
  case True
  show ?thesis
    by (rule that [of 0 0]) (simp_all add: True)
next
  case False
  define j where "j = ulp_exp 24 (- 149) x"
  define m where "m = round_even (x / 2 powi j)"
  have "2 powi j * of_int m = x"
    using assms False by (simp add: is_float32_def fround_def round_to_def j_def m_def)
  then have x: "x = of_int m * 2 powi j"
    by (simp only: mult.commute)
  have "\<lfloor>log 2 \<bar>x\<bar>\<rfloor> + 1 \<le> j + 24"
    by (simp add: j_def ulp_exp_def)
  then have "(2::real) powi (\<lfloor>log 2 \<bar>x\<bar>\<rfloor> + 1) \<le> 2 powi (j + 24)"
    by (rule powi_le)
  moreover have "\<bar>x\<bar> < 2 powi (\<lfloor>log 2 \<bar>x\<bar>\<rfloor> + 1)"
    using floor_log2_powi [of "\<bar>x\<bar>" "\<lfloor>log 2 \<bar>x\<bar>\<rfloor>"] False by simp
  ultimately have "\<bar>x\<bar> < 2 powi (j + 24)"
    by linarith
  then have "of_int \<bar>m\<bar> * 2 powi j < (2::real) ^ 24 * 2 powi j"
    by (simp add: x abs_mult power_int_add mult.commute)
  then have "real_of_int \<bar>m\<bar> < 2 ^ 24"
    by simp
  then have "real_of_int \<bar>m\<bar> < real_of_int (2 ^ 24)"
    by simp
  then have m: "\<bar>m\<bar> < 2 ^ 24"
    by (simp only: of_int_less_iff)
  have "- 149 \<le> j"
    unfolding j_def by (rule ulp_exp_ge)
  with x m show ?thesis
    by (rule that)
qed

lemma float32_times_320:
  assumes "is_float32 x"
  shows "to_double (x * 320) = x * 320"
proof -
  from assms obtain m :: int and j :: int
    where x: "x = of_int m * 2 powi j" and m: "\<bar>m\<bar> < 2 ^ 24" and j: "- 149 \<le> j"
    by (rule float32_form)
  have "(2::real) powi (j + 6) = 2 powi j * 64"
    by (simp add: power_int_add)
  then have "x * 320 = of_int (5 * m) * 2 powi (j + 6)"
    by (simp add: x)
  moreover have "\<bar>5 * m\<bar> < 2 ^ 53"
    using m by (simp add: abs_mult)
  moreover have "- 1074 \<le> j + 6"
    using j by simp
  ultimately show ?thesis
    unfolding to_double_def by (rule round_to_exact)
qed




section \<open>Effects on the world\<close>

lemma plate_letters_world: "snd (plate_letters k p w) = w\<lparr>rnd_pos := rnd_pos w + k\<rparr>"
  by (induction k arbitrary: p w) (simp_all add: Math_random_def)

lemma plate_numbers_world: "snd (plate_numbers k p w) = w\<lparr>rnd_pos := rnd_pos w + k\<rparr>"
  by (induction k arbitrary: p w) (simp_all add: Math_random_def)

lemma generateLicensePlate_world:
  "snd (generateLicensePlate w) = w\<lparr>rnd_pos := rnd_pos w + 7\<rparr>"
  by (simp add: generateLicensePlate_def case_prod_beta plate_letters_world plate_numbers_world)


lemma simulated_vehicle_world:
  "snd (simulated_vehicle i w) =
     w\<lparr>rnd_pos := rnd_pos w + 13, clock_pos := clock_pos w + 2\<rparr>"
  by (simp add: simulated_vehicle_def case_prod_beta Date_now_def Math_random_def
      generateLicensePlate_world)


section \<open>Properties of the simulation\<close>

lemma simulateLoop_eq:
  "fst (simulateLoop i n acc w) =
     acc @ map (\<lambda>k. fst (simulated_vehicle (i + k)
                  (w\<lparr>rnd_pos := rnd_pos w + 13 * k, clock_pos := clock_pos w + 2 * k\<rparr>)))
             [0..<nat n - i]"
proof (induction i n acc w rule: simulateLoop.induct)
  case (1 i n acc w)
  show ?case
  proof (cases "int i < n")
    case False
    then show ?thesis by (simp add: simulateLoop.simps [of i])
  next
    case True
    then have "nat n - i = Suc (nat n - Suc i)" by linarith
    then have up: "[0..<nat n - i] = 0 # map Suc [0..<nat n - Suc i]"
      by (simp add: upt_conv_Cons map_Suc_upt del: upt_Suc)
    show ?thesis
      using "1.IH" [OF True] True
      by (simp add: simulateLoop.simps [of i] up simulated_vehicle_world comp_def add.commute add.left_commute)
  qed
qed

lemma simulateLoop_world:
  "snd (simulateLoop i n acc w) =
     w\<lparr>rnd_pos := rnd_pos w + 13 * (nat n - i), clock_pos := clock_pos w + 2 * (nat n - i)\<rparr>"
proof (induction i n acc w rule: simulateLoop.induct)
  case (1 i n acc w)
  show ?case
  proof (cases "int i < n")
    case False
    then show ?thesis by (simp add: simulateLoop.simps [of i])
  next
    case True
    then have "nat n - i = Suc (nat n - Suc i)" by linarith
    then show ?thesis
      using "1.IH" [OF True] True
      by (simp add: simulateLoop.simps [of i] simulated_vehicle_world)
  qed
qed

lemma simulateDetection_eq:
  "fst (simulateDetection w) =
     (if Rep_unit_real (rnd w (rnd_pos w)) < to_double 0.3 then []
      else map (\<lambda>k. fst (simulated_vehicle k
                  (w\<lparr>rnd_pos := rnd_pos w + 2 + 13 * k, clock_pos := clock_pos w + 2 * k\<rparr>)))
             [0..<nat (\<lfloor>to_double (Rep_unit_real (rnd w (Suc (rnd_pos w))) * 3)\<rfloor> + 1)])"
  by (simp add: simulateDetection_def Math_random_def Let_def simulateLoop_eq add.commute add.left_commute)

lemma simulateDetection_world:
  "snd (simulateDetection w) =
     (if Rep_unit_real (rnd w (rnd_pos w)) < to_double 0.3 then w\<lparr>rnd_pos := rnd_pos w + 1\<rparr>
      else w\<lparr>rnd_pos := rnd_pos w + 2 +
                  13 * nat (\<lfloor>to_double (Rep_unit_real (rnd w (Suc (rnd_pos w))) * 3)\<rfloor> + 1),
             clock_pos := clock_pos w +
                  2 * nat (\<lfloor>to_double (Rep_unit_real (rnd w (Suc (rnd_pos w))) * 3)\<rfloor> + 1)\<rparr>)"
  by (simp add: simulateDetection_def Math_random_def Let_def simulateLoop_world)

lemma vehicleTypes_eq: "vehicleTypes = [CAR, BUS, TRUCK, MOTORCYCLE, BICYCLE, VAN]"
  by (simp add: vehicleTypes_def Object_values_VehicleType_def)

lemma simulated_vehicle_fields:
  "type_dv (fst (simulated_vehicle i w)) =
     vehicleTypes ! nat \<lfloor>to_double (Rep_unit_real (rnd w (rnd_pos w)) * 6)\<rfloor>"
  "id_dv (fst (simulated_vehicle i w)) =
     ''vehicle_'' @ show_nat (clock w (clock_pos w)) @ ''_'' @ show_nat i"
  "confidence (fst (simulated_vehicle i w)) =
     to_double (to_double 0.7 + to_double (Rep_unit_real (rnd w (rnd_pos w + 1)) * to_double 0.3))"
  "bbox (fst (simulated_vehicle i w)) =
     \<lparr>x_bb = Num (to_double (Rep_unit_real (rnd w (rnd_pos w + 2)) * 300)),
      y_bb = Num (to_double (Rep_unit_real (rnd w (rnd_pos w + 3)) * 300)),
      width_bb = Num (to_double (50 + to_double (Rep_unit_real (rnd w (rnd_pos w + 4)) * 100))),
      height_bb = Num (to_double (30 + to_double (Rep_unit_real (rnd w (rnd_pos w + 5)) * 80)))\<rparr>"
  by (simp_all add: simulated_vehicle_def case_prod_beta Math_random_def Date_now_def
      vehicleTypes_eq eval_nat_numeral)

text \<open>The rounded product of a draw and a constant lies between 0 and its value at the largest draw.\<close>

lemma scaled_draw:
  assumes "0 \<le> c"
  shows "0 \<le> to_double (Rep_unit_real u * c)"
    and "to_double (Rep_unit_real u * c) \<le> to_double ((1 - 1 / 2 ^ 53) * c)"
proof -
  have nn: "0 \<le> Rep_unit_real u * c"
    using unit_real_bounds(1) [of u] assms by simp
  then show "0 \<le> to_double (Rep_unit_real u * c)"
    by (rule to_double_nonneg)
  have "Rep_unit_real u * c \<le> (1 - 1 / 2 ^ 53) * c"
    using unit_real_bounds(3) [of u] assms by (rule mult_right_mono)
  with nn show "to_double (Rep_unit_real u * c) \<le> to_double ((1 - 1 / 2 ^ 53) * c)"
    by (rule to_double_mono)
qed

lemma simulated_type:
  "type_dv (fst (simulated_vehicle i w)) \<in> {CAR, BUS, TRUCK, MOTORCYCLE, BICYCLE, VAN}"
proof -
  let ?p = "to_double (Rep_unit_real (rnd w (rnd_pos w)) * 6)"
  have c: "(0::real) \<le> 6" by simp
  have p: "0 \<le> ?p" "?p \<le> 6 - 1 / 2 ^ 50"
    using scaled_draw [OF c, of "rnd w (rnd_pos w)"] by (simp_all only: top_times)
  from p(2) have "?p < 6" by simp
  then have "\<lfloor>?p\<rfloor> < 6" by (simp add: floor_less_iff)
  moreover from p(1) have "0 \<le> \<lfloor>?p\<rfloor>" by simp
  ultimately have "0 \<le> \<lfloor>?p\<rfloor>" "\<lfloor>?p\<rfloor> < 6"
    by simp_all
  then have "nat \<lfloor>?p\<rfloor> < 6"
    by linarith
  then have "nat \<lfloor>?p\<rfloor> < length vehicleTypes"
    by (simp only: vehicleTypes_eq) simp
  then have "vehicleTypes ! nat \<lfloor>?p\<rfloor> \<in> set vehicleTypes"
    by (rule nth_mem)
  then show ?thesis by (simp add: simulated_vehicle_fields vehicleTypes_eq)
qed

lemma confidence_range:
  "to_double 0.7 \<le> to_double (to_double 0.7 + to_double (Rep_unit_real u * to_double 0.3))"
  "to_double (to_double 0.7 + to_double (Rep_unit_real u * to_double 0.3)) < 1"
proof -
  let ?t = "to_double (Rep_unit_real u * to_double 0.3)"
  have c: "0 \<le> to_double 0.3" by (simp add: double_03)
  have t: "0 \<le> ?t" "?t \<le> 2702159776422297 / 2 ^ 53"
    using scaled_draw [OF c, of u] by (simp_all only: top_times_03)
  have s: "0 \<le> to_double 0.7" by (simp add: double_07)
  have "to_double (to_double 0.7) \<le> to_double (to_double 0.7 + ?t)"
    using s t(1) by (intro to_double_mono) simp_all
  moreover have "to_double (to_double 0.7) = to_double 0.7"
    unfolding double_07 by (rule to_double_small) simp_all
  ultimately show "to_double 0.7 \<le> to_double (to_double 0.7 + ?t)"
    by simp
  have "to_double (to_double 0.7 + ?t) \<le> to_double (to_double 0.7 + 2702159776422297 / 2 ^ 53)"
    using s t by (intro to_double_mono) simp_all
  then show "to_double (to_double 0.7 + ?t) < 1"
    by (simp only: top_sums) simp
qed

lemma position_range:
  "0 \<le> to_double (Rep_unit_real u * 300)" "to_double (Rep_unit_real u * 300) < 300"
proof -
  have c: "(0::real) \<le> 300" by simp
  have t: "0 \<le> to_double (Rep_unit_real u * 300)"
    "to_double (Rep_unit_real u * 300) \<le> 300 - 1 / 2 ^ 44"
    using scaled_draw [OF c, of u] by (simp_all only: top_times)
  from t(1) show "0 \<le> to_double (Rep_unit_real u * 300)" .
  from t(2) show "to_double (Rep_unit_real u * 300) < 300" by simp
qed

lemma width_range:
  "50 \<le> to_double (50 + to_double (Rep_unit_real u * 100))"
  "to_double (50 + to_double (Rep_unit_real u * 100)) \<le> 150"
proof -
  let ?t = "to_double (Rep_unit_real u * 100)"
  have c: "(0::real) \<le> 100" by simp
  have t: "0 \<le> ?t" "?t \<le> 100 - 1 / 2 ^ 46"
    using scaled_draw [OF c, of u] by (simp_all only: top_times)
  have "to_double 50 \<le> to_double (50 + ?t)"
    using t(1) by (intro to_double_mono) simp_all
  moreover have "to_double 50 = 50"
    by (rule to_double_fine) simp_all
  ultimately show "50 \<le> to_double (50 + ?t)"
    by simp
  have "to_double (50 + ?t) \<le> to_double (50 + (100 - 1 / 2 ^ 46))"
    using t by (intro to_double_mono) simp_all
  then show "to_double (50 + ?t) \<le> 150"
    by (simp only: top_sums)
qed

lemma height_range:
  "30 \<le> to_double (30 + to_double (Rep_unit_real u * 80))"
  "to_double (30 + to_double (Rep_unit_real u * 80)) < 110"
proof -
  let ?t = "to_double (Rep_unit_real u * 80)"
  have c: "(0::real) \<le> 80" by simp
  have t: "0 \<le> ?t" "?t \<le> 80 - 1 / 2 ^ 46"
    using scaled_draw [OF c, of u] by (simp_all only: top_times)
  have "to_double 30 \<le> to_double (30 + ?t)"
    using t(1) by (intro to_double_mono) simp_all
  moreover have "to_double 30 = 30"
    by (rule to_double_fine) simp_all
  ultimately show "30 \<le> to_double (30 + ?t)"
    by simp
  have "to_double (30 + ?t) \<le> to_double (30 + (80 - 1 / 2 ^ 46))"
    using t by (intro to_double_mono) simp_all
  then show "to_double (30 + ?t) < 110"
    by (simp only: top_sums) simp
qed

lemma simulated_ranges:
  "to_double 0.7 \<le> confidence (fst (simulated_vehicle i w))"
  "confidence (fst (simulated_vehicle i w)) < 1"
  "\<exists>x y wd ht. bbox (fst (simulated_vehicle i w)) =
       \<lparr>x_bb = Num x, y_bb = Num y, width_bb = Num wd, height_bb = Num ht\<rparr> \<and>
     0 \<le> x \<and> x < 300 \<and> 0 \<le> y \<and> y < 300 \<and> 50 \<le> wd \<and> wd \<le> 150 \<and> 30 \<le> ht \<and> ht < 110"
  using confidence_range [of "rnd w (rnd_pos w + 1)"] position_range [of "rnd w (rnd_pos w + 2)"]
    position_range [of "rnd w (rnd_pos w + 3)"] width_range [of "rnd w (rnd_pos w + 4)"]
    height_range [of "rnd w (rnd_pos w + 5)"]
  by (simp_all only: simulated_vehicle_fields) blast

lemma count_range:
  "1 \<le> nat (\<lfloor>to_double (Rep_unit_real u * 3)\<rfloor> + 1)"
  "nat (\<lfloor>to_double (Rep_unit_real u * 3)\<rfloor> + 1) \<le> 3"
proof -
  let ?p = "to_double (Rep_unit_real u * 3)"
  have c: "(0::real) \<le> 3" by simp
  have p: "0 \<le> ?p" "?p \<le> 3 - 1 / 2 ^ 51"
    using scaled_draw [OF c, of u] by (simp_all only: top_times)
  from p(2) have "?p < 3" by simp
  then have "\<lfloor>?p\<rfloor> < 3" by (simp add: floor_less_iff)
  moreover from p(1) have "0 \<le> \<lfloor>?p\<rfloor>" by simp
  ultimately have "0 \<le> \<lfloor>?p\<rfloor>" "\<lfloor>?p\<rfloor> < 3"
    by simp_all
  then show "1 \<le> nat (\<lfloor>?p\<rfloor> + 1)" "nat (\<lfloor>?p\<rfloor> + 1) \<le> 3"
    by linarith+
qed

text \<open>
  The rounding decides the count and the category at some draws: the product of
  0.3333333333333333 and 3 rounds to 1, which gives two detections, and the product of
  0.8333333333333333 and 6 rounds to 5, which gives a van.
\<close>

lemma rounded_products:
  "\<lfloor>to_double (6004799503160661 / 2 ^ 54 * 3)\<rfloor> + 1 = 2"
  "vehicleTypes ! nat \<lfloor>to_double (3752999689475413 / 2 ^ 52 * 6)\<rfloor> = VAN"
proof -
  have "to_double (6004799503160661 / 2 ^ 54 * 3) = 1"
    unfolding to_double_def
    by (subst round_to_eval [where e = "- 1"]) (simp_all add: round_even_def power_int_minus_divide)
  then show "\<lfloor>to_double (6004799503160661 / 2 ^ 54 * 3)\<rfloor> + 1 = 2"
    by (simp only: floor_one one_add_one)
  have "to_double (3752999689475413 / 2 ^ 52 * 6) = 5"
    unfolding to_double_def
    by (subst round_to_eval [where e = 2]) (simp_all add: round_even_def power_int_minus_divide)
  then show "vehicleTypes ! nat \<lfloor>to_double (3752999689475413 / 2 ^ 52 * 6)\<rfloor> = VAN"
    by (simp only: floor_numeral vehicleTypes_eq) simp
qed

lemma world_of_simps [simp]:
  "Rep_unit_real (rnd (world_of f) n) = (if 0 \<le> f n \<and> f n < 1 \<and> is_double (f n) then f n else 0)"
  "rnd_pos (world_of f) = 0" "clock (world_of f) n = 1700000000000"
  "clock_pos (world_of f) = 0" "console (world_of f) = []"
  by (simp_all add: world_of_def unit_of.rep_eq)

text \<open>The draws of the concrete worlds are binary64 values.\<close>

lemma draws_are_doubles [simp]:
  "is_double 0" "is_double (1 / 2)" "is_double (1 / 4)" "is_double (3 / 4)" "is_double (3 / 8)"
  "is_double (7 / 8)" "is_double (1 - 1 / 2 ^ 53)"
  "is_double (9007199254740991 / 9007199254740992)"
  unfolding is_double_def by (simp, (rule to_double_small, simp, simp)+)

lemma upt3: "[0..<3] = [0, Suc 0, Suc (Suc 0)]"
  by (simp add: numeral_3_eq_3)

lemma threshold_below_half [simp]: "\<not> 1 / 2 < to_double 0.3" "\<not> 1 < to_double 0.3 * 2"
  unfolding double_03 by simp_all

lemma simulated_types_cbt: "map type_dv (fst (simulateDetection world_cbt)) = [CAR, BUS, TRUCK]"
  by (simp add: simulateDetection_eq world_cbt_def upt3 simulated_vehicle_fields vehicleTypes_eq
      to_double_fine)

lemma simulated_types_mbv: "map type_dv (fst (simulateDetection world_mbv)) = [MOTORCYCLE, BICYCLE, VAN]"
  by (simp add: simulateDetection_eq world_mbv_def upt3 simulated_vehicle_fields vehicleTypes_eq
      to_double_fine)

lemma double_07_idem: "to_double (to_double 0.7) = to_double 0.7"
  unfolding double_07 by (rule to_double_small) simp_all

text \<open>
  C5, as stated, speaks of five categories. Two calls of the generator can return all
  six categories other than \<open>UNKNOWN\<close>.
\<close>

theorem simulation_six_categories:
  "card (type_dv ` (set (fst (simulateDetection world_cbt)) \<union> set (fst (simulateDetection world_mbv)))) = 6"
proof -
  have "type_dv ` (set (fst (simulateDetection world_cbt)) \<union> set (fst (simulateDetection world_mbv))) =
        set (map type_dv (fst (simulateDetection world_cbt)) @ map type_dv (fst (simulateDetection world_mbv)))"
    by (simp add: image_Un)
  also have "\<dots> = {CAR, BUS, TRUCK, MOTORCYCLE, BICYCLE, VAN}"
    by (simp add: simulated_types_cbt simulated_types_mbv)
  finally show ?thesis by simp
qed

text \<open>
  C5, amended. Every product and sum of the generator is rounded to binary64, written
  \<open>fl\<close> here, and 0.3 and 0.7 stand for the binary64 numbers nearest to them. With \<open>u\<close>
  the first draw of the random source and \<open>u'\<close> the second, the generator returns nothing
  when \<open>u < 0.3\<close> and otherwise \<open>\<lfloor>fl (3 u')\<rfloor> + 1\<close> detections, that is 1, 2 or 3; never more
  than 3. Each detection takes its category from the six categories other than
  \<open>UNKNOWN\<close> (\<open>VAN\<close> among them), at index \<open>\<lfloor>fl (6 u)\<rfloor>\<close> for a draw \<open>u\<close>; its confidence is
  \<open>fl (0.7 + fl (0.3 u))\<close>, at least 0.7 and below 1; its position \<open>fl (300 u)\<close> is in
  [0, 300), its width \<open>fl (50 + fl (100 u))\<close> in the closed interval [50, 150] and its
  height \<open>fl (30 + fl (80 u))\<close> in [30, 110). The width 150 is reached, at the
  draw \<open>1 - 2\<^sup>-\<^sup>5\<^sup>3\<close>.
\<close>

theorem simulation_shape:
  "(Rep_unit_real (rnd w (rnd_pos w)) < to_double 0.3 \<longrightarrow> fst (simulateDetection w) = []) \<and>
   (\<not> Rep_unit_real (rnd w (rnd_pos w)) < to_double 0.3 \<longrightarrow>
      length (fst (simulateDetection w)) =
        nat (\<lfloor>to_double (Rep_unit_real (rnd w (Suc (rnd_pos w))) * 3)\<rfloor> + 1) \<and>
      1 \<le> length (fst (simulateDetection w))) \<and>
   length (fst (simulateDetection w)) \<le> 3 \<and>
   (\<forall>k < length (fst (simulateDetection w)).
      type_dv (fst (simulateDetection w) ! k) =
        vehicleTypes ! nat \<lfloor>to_double (Rep_unit_real (rnd w (rnd_pos w + 2 + 13 * k)) * 6)\<rfloor> \<and>
      type_dv (fst (simulateDetection w) ! k) \<in> {CAR, BUS, TRUCK, MOTORCYCLE, BICYCLE, VAN} \<and>
      confidence (fst (simulateDetection w) ! k) =
        to_double (to_double 0.7 +
          to_double (Rep_unit_real (rnd w (rnd_pos w + 2 + 13 * k + 1)) * to_double 0.3)) \<and>
      to_double 0.7 \<le> confidence (fst (simulateDetection w) ! k) \<and>
      confidence (fst (simulateDetection w) ! k) < 1 \<and>
      bbox (fst (simulateDetection w) ! k) =
        \<lparr>x_bb = Num (to_double (Rep_unit_real (rnd w (rnd_pos w + 2 + 13 * k + 2)) * 300)),
         y_bb = Num (to_double (Rep_unit_real (rnd w (rnd_pos w + 2 + 13 * k + 3)) * 300)),
         width_bb = Num (to_double (50 +
           to_double (Rep_unit_real (rnd w (rnd_pos w + 2 + 13 * k + 4)) * 100))),
         height_bb = Num (to_double (30 +
           to_double (Rep_unit_real (rnd w (rnd_pos w + 2 + 13 * k + 5)) * 80)))\<rparr> \<and>
      (\<exists>x y wd ht. bbox (fst (simulateDetection w) ! k) =
           \<lparr>x_bb = Num x, y_bb = Num y, width_bb = Num wd, height_bb = Num ht\<rparr> \<and>
         0 \<le> x \<and> x < 300 \<and> 0 \<le> y \<and> y < 300 \<and> 50 \<le> wd \<and> wd \<le> 150 \<and> 30 \<le> ht \<and> ht < 110))"
proof -
  let ?n = "nat (\<lfloor>to_double (Rep_unit_real (rnd w (Suc (rnd_pos w))) * 3)\<rfloor> + 1)"
  let ?w = "\<lambda>k. w\<lparr>rnd_pos := rnd_pos w + 2 + 13 * k, clock_pos := clock_pos w + 2 * k\<rparr>"
  let ?v = "\<lambda>k. fst (simulated_vehicle k (?w k))"
  let ?P = "\<lambda>k d. type_dv d =
        vehicleTypes ! nat \<lfloor>to_double (Rep_unit_real (rnd w (rnd_pos w + 2 + 13 * k)) * 6)\<rfloor> \<and>
      type_dv d \<in> {CAR, BUS, TRUCK, MOTORCYCLE, BICYCLE, VAN} \<and>
      confidence d =
        to_double (to_double 0.7 +
          to_double (Rep_unit_real (rnd w (rnd_pos w + 2 + 13 * k + 1)) * to_double 0.3)) \<and>
      to_double 0.7 \<le> confidence d \<and>
      confidence d < 1 \<and>
      bbox d =
        \<lparr>x_bb = Num (to_double (Rep_unit_real (rnd w (rnd_pos w + 2 + 13 * k + 2)) * 300)),
         y_bb = Num (to_double (Rep_unit_real (rnd w (rnd_pos w + 2 + 13 * k + 3)) * 300)),
         width_bb = Num (to_double (50 +
           to_double (Rep_unit_real (rnd w (rnd_pos w + 2 + 13 * k + 4)) * 100))),
         height_bb = Num (to_double (30 +
           to_double (Rep_unit_real (rnd w (rnd_pos w + 2 + 13 * k + 5)) * 80)))\<rparr> \<and>
      (\<exists>x y wd ht. bbox d =
           \<lparr>x_bb = Num x, y_bb = Num y, width_bb = Num wd, height_bb = Num ht\<rparr> \<and>
         0 \<le> x \<and> x < 300 \<and> 0 \<le> y \<and> y < 300 \<and> 50 \<le> wd \<and> wd \<le> 150 \<and> 30 \<le> ht \<and> ht < 110)"
  have len: "length (fst (simulateDetection w)) =
      (if Rep_unit_real (rnd w (rnd_pos w)) < to_double 0.3 then 0 else ?n)"
    by (simp add: simulateDetection_eq)
  have nth: "fst (simulateDetection w) ! k = ?v k" if "k < length (fst (simulateDetection w))" for k
    using that by (simp add: simulateDetection_eq split: if_splits)
  have each: "?P k (?v k)" for k
  proof -
    have f1: "type_dv (?v k) =
        vehicleTypes ! nat \<lfloor>to_double (Rep_unit_real (rnd w (rnd_pos w + 2 + 13 * k)) * 6)\<rfloor>"
      by (simp add: simulated_vehicle_fields(1))
    have f2: "type_dv (?v k) \<in> {CAR, BUS, TRUCK, MOTORCYCLE, BICYCLE, VAN}"
      by (rule simulated_type)
    have f3: "confidence (?v k) =
        to_double (to_double 0.7 +
          to_double (Rep_unit_real (rnd w (rnd_pos w + 2 + 13 * k + 1)) * to_double 0.3))"
      by (simp add: simulated_vehicle_fields(3))
    have f4: "to_double 0.7 \<le> confidence (?v k)"
      by (rule simulated_ranges(1))
    have f5: "confidence (?v k) < 1"
      by (rule simulated_ranges(2))
    have f6: "bbox (?v k) =
        \<lparr>x_bb = Num (to_double (Rep_unit_real (rnd w (rnd_pos w + 2 + 13 * k + 2)) * 300)),
         y_bb = Num (to_double (Rep_unit_real (rnd w (rnd_pos w + 2 + 13 * k + 3)) * 300)),
         width_bb = Num (to_double (50 +
           to_double (Rep_unit_real (rnd w (rnd_pos w + 2 + 13 * k + 4)) * 100))),
         height_bb = Num (to_double (30 +
           to_double (Rep_unit_real (rnd w (rnd_pos w + 2 + 13 * k + 5)) * 80)))\<rparr>"
      by (simp add: simulated_vehicle_fields(4))
    have f7: "\<exists>x y wd ht. bbox (?v k) =
           \<lparr>x_bb = Num x, y_bb = Num y, width_bb = Num wd, height_bb = Num ht\<rparr> \<and>
         0 \<le> x \<and> x < 300 \<and> 0 \<le> y \<and> y < 300 \<and> 50 \<le> wd \<and> wd \<le> 150 \<and> 30 \<le> ht \<and> ht < 110"
      by (rule simulated_ranges(3))
    show ?thesis
      by (rule conjI [OF f1 conjI [OF f2 conjI [OF f3 conjI [OF f4 conjI [OF f5 conjI [OF f6 f7]]]]]])
  qed
  have p1: "Rep_unit_real (rnd w (rnd_pos w)) < to_double 0.3 \<longrightarrow> fst (simulateDetection w) = []"
    using len by auto
  have p2: "\<not> Rep_unit_real (rnd w (rnd_pos w)) < to_double 0.3 \<longrightarrow>
      length (fst (simulateDetection w)) = ?n \<and> 1 \<le> length (fst (simulateDetection w))"
    using len count_range(1) [of "rnd w (Suc (rnd_pos w))"] by simp
  have p3: "length (fst (simulateDetection w)) \<le> 3"
    using len count_range(2) [of "rnd w (Suc (rnd_pos w))"] by simp
  have p4: "\<forall>k < length (fst (simulateDetection w)). ?P k (fst (simulateDetection w) ! k)"
  proof (intro allI impI)
    fix k
    assume k: "k < length (fst (simulateDetection w))"
    show "?P k (fst (simulateDetection w) ! k)"
      unfolding nth [OF k] by (rule each)
  qed
  show ?thesis
    by (rule conjI [OF p1 conjI [OF p2 conjI [OF p3 p4]]])
qed

theorem simulation_shape_witness:
  "length (fst (simulateDetection world_cbt)) = 3 \<and>
   type_dv (fst (simulateDetection world_cbt) ! 2) = TRUCK \<and>
   confidence (fst (simulateDetection world_cbt) ! 2) = 3152519739159347 / 2 ^ 52 \<and>
   length (fst (simulateDetection world_wide)) = 1 \<and>
   width_bb (bbox (fst (simulateDetection world_wide) ! 0)) = Num 150 \<and>
   fst (simulateDetection (world_of (\<lambda>_. 1 / 4))) = []"
proof -
  note t = simulation_shape [of world_cbt]
  have "\<not> Rep_unit_real (rnd world_cbt (rnd_pos world_cbt)) < to_double 0.3"
    by (simp add: world_cbt_def)
  with t have "length (fst (simulateDetection world_cbt)) =
      nat (\<lfloor>to_double (Rep_unit_real (rnd world_cbt (Suc (rnd_pos world_cbt))) * 3)\<rfloor> + 1)"
    by blast
  then have len: "length (fst (simulateDetection world_cbt)) = 3"
    by (simp add: world_cbt_def to_double_fine)
  then have two: "2 < length (fst (simulateDetection world_cbt))"
    by simp
  note d = t [THEN conjunct2, THEN conjunct2, THEN conjunct2, rule_format, OF two]
  have ty: "type_dv (fst (simulateDetection world_cbt) ! 2) = TRUCK"
    using d [THEN conjunct1] by (simp add: world_cbt_def vehicleTypes_eq to_double_fine)
  have "confidence (fst (simulateDetection world_cbt) ! 2) = to_double 0.7"
    using d [THEN conjunct2, THEN conjunct2, THEN conjunct1]
    by (simp add: world_cbt_def double_07_idem)
  then have co: "confidence (fst (simulateDetection world_cbt) ! 2) = 3152519739159347 / 2 ^ 52"
    by (simp only: double_07)
  note t' = simulation_shape [of world_wide]
  have "\<not> Rep_unit_real (rnd world_wide (rnd_pos world_wide)) < to_double 0.3"
    by (simp add: world_wide_def)
  with t' have "length (fst (simulateDetection world_wide)) =
      nat (\<lfloor>to_double (Rep_unit_real (rnd world_wide (Suc (rnd_pos world_wide))) * 3)\<rfloor> + 1)"
    by blast
  then have len': "length (fst (simulateDetection world_wide)) = 1"
    by (simp add: world_wide_def)
  then have zero: "0 < length (fst (simulateDetection world_wide))"
    by simp
  note d' = t' [THEN conjunct2, THEN conjunct2, THEN conjunct2, rule_format, OF zero]
  have "Rep_unit_real (rnd world_wide 6) = 1 - 1 / 2 ^ 53"
    by (simp add: world_wide_def)
  then have "bbox (fst (simulateDetection world_wide) ! 0) =
      \<lparr>x_bb = Num 0, y_bb = Num 0, width_bb = Num (to_double (50 + to_double ((1 - 1 / 2 ^ 53) * 100))),
       height_bb = Num (to_double 30)\<rparr>"
    using d' [THEN conjunct2, THEN conjunct2, THEN conjunct2, THEN conjunct2, THEN conjunct2,
        THEN conjunct1]
    by (simp add: world_wide_def)
  then have wd: "width_bb (bbox (fst (simulateDetection world_wide) ! 0)) = Num 150"
    by (simp only: top_times top_sums BBox.simps)
  have "Rep_unit_real (rnd (world_of (\<lambda>_. 1 / 4)) (rnd_pos (world_of (\<lambda>_. 1 / 4)))) = 1 / 4"
    by simp
  then have "Rep_unit_real (rnd (world_of (\<lambda>_. 1 / 4)) (rnd_pos (world_of (\<lambda>_. 1 / 4)))) <
      to_double 0.3"
    unfolding double_03 by simp
  with simulation_shape [of "world_of (\<lambda>_. 1 / 4)"]
  have em: "fst (simulateDetection (world_of (\<lambda>_. 1 / 4))) = []"
    by blast
  from len ty co len' wd em show ?thesis by blast
qed


section \<open>Properties of the decoder\<close>

subsection \<open>Which entries are read and kept\<close>

lemma lt_num_considered: "lt_num i m \<longleftrightarrow> i < considered m"
  by (auto simp: lt_num_def considered_def split: option.splits) linarith+

lemma postProcessBody_keeps:
  "keeps classes scores i \<Longrightarrow>
   postProcessBody i boxes classes scores acc w =
     (acc @ [fst (decoded_vehicle i (the (nth_opt scores i))
               (the (VEHICLE_CLASS_MAP (className_of (nth_opt classes i)))) boxes w)],
      snd (decoded_vehicle i (the (nth_opt scores i))
               (the (VEHICLE_CLASS_MAP (className_of (nth_opt classes i)))) boxes w))"
  by (auto simp: keeps_def postProcessBody_def Let_def case_prod_beta split: option.splits)

lemma postProcessBody_skips:
  "\<not> keeps classes scores i \<Longrightarrow> postProcessBody i boxes classes scores acc w = (acc, w)"
  by (auto simp: keeps_def postProcessBody_def Let_def split: option.splits)

lemma postProcessLoop_map:
  assumes "\<And>i sc vt w. g (fst (decoded_vehicle i sc vt boxes w)) = G i sc vt"
  shows "map g (fst (postProcessLoop i m boxes classes scores acc w)) =
         map g acc @
         map (\<lambda>j. G j (the (nth_opt scores j)) (the (VEHICLE_CLASS_MAP (className_of (nth_opt classes j)))))
           (filter (keeps classes scores) [i..<considered m])"
  using assms
proof (induction i m boxes classes scores acc w rule: postProcessLoop.induct)
  case (1 i m boxes classes scores acc w)
  show ?case
  proof (cases "i < considered m")
    case False
    then show ?thesis
      by (simp add: postProcessLoop.simps [of i] lt_num_considered)
  next
    case True
    then have up: "[i..<considered m] = i # [Suc i..<considered m]"
      by (simp add: upt_conv_Cons)
    from True have lt: "lt_num i m" by (simp add: lt_num_considered)
    show ?thesis
      using "1.IH" [OF lt "1.prems"] lt
      by (cases "keeps classes scores i")
        (simp_all add: postProcessLoop.simps [of i] up "1.prems" postProcessBody_keeps
          postProcessBody_skips)
  qed
qed



lemma postProcess_try_four:
  "postProcess_try (boxes # classes # scores # numDetections # rest) w =
     Inr (postProcessLoop 0 (nth_opt numDetections 0) boxes classes scores [] w)"
  by (simp add: postProcess_try_def nth_opt_def)

lemma postProcessDetections_four:
  "postProcessDetections (boxes # classes # scores # numDetections # rest) w =
     Inr (postProcessLoop 0 (nth_opt numDetections 0) boxes classes scores [] w)"
  by (simp add: postProcessDetections_def postProcess_try_four)

lemma postProcessDetections_Inr: "\<exists>ds w'. postProcessDetections predictions w = Inr (ds, w')"
  by (cases "postProcess_try predictions w") (auto simp: postProcessDetections_def)


lemma postProcessLoop_length:
  "length (fst (postProcessLoop i m boxes classes scores acc w)) =
     length acc + length (filter (keeps classes scores) [i..<considered m])"
  using postProcessLoop_map [of "\<lambda>_. ()" boxes "\<lambda>_ _ _. ()" i m classes scores acc w]
  by (metis length_append length_map)



lemma keeps_iff:
  "keeps classes scores i \<longleftrightarrow>
     i < length scores \<and> to_double 0.3 < scores ! i \<and>
     VEHICLE_CLASS_MAP (className_of (nth_opt classes i)) \<noteq> None"
  by (auto simp: keeps_def nth_opt_def [of scores] confidenceThreshold_def split: option.splits)



lemma decoded_vehicle_fields:
  "type_dv (fst (decoded_vehicle i sc vt boxes w)) = vt"
  "confidence (fst (decoded_vehicle i sc vt boxes w)) = sc"
  "id_dv (fst (decoded_vehicle i sc vt boxes w)) =
     ''vehicle_'' @ show_nat (clock w (clock_pos w)) @ ''_'' @ show_nat i"
  "bbox (fst (decoded_vehicle i sc vt boxes w)) =
     \<lparr>x_bb = times_num (to_number (nth_opt boxes (i * 4 + 1))) (Num 320),
      y_bb = times_num (to_number (nth_opt boxes (i * 4))) (Num 320),
      width_bb = times_num (minus_num (to_number (nth_opt boxes (i * 4 + 3)))
                                      (to_number (nth_opt boxes (i * 4 + 1)))) (Num 320),
      height_bb = times_num (minus_num (to_number (nth_opt boxes (i * 4 + 2)))
                                       (to_number (nth_opt boxes (i * 4)))) (Num 320)\<rparr>"
  by (simp_all add: decoded_vehicle_def case_prod_beta Date_now_def)

lemma decoded_four:
  "decoded (boxes # classes # scores # (K # ks) # rest) w =
     fst (postProcessLoop 0 (Some K) boxes classes scores [] w)"
  by (simp add: decoded_def postProcessDetections_four nth_opt_def [of "K # ks"] case_prod_beta)


lemma kept_entries_eq:
  "kept_entries classes scores K =
     filter (\<lambda>i. i < length scores \<and> to_double 0.3 < scores ! i \<and>
                 VEHICLE_CLASS_MAP (className_of (nth_opt classes i)) \<noteq> None) [0..<nat \<lceil>K\<rceil>]"
  unfolding kept_entries_def by (rule filter_cong) (simp_all add: keeps_iff)


lemma vehicle_label_car: "VEHICLE_CLASS_MAP (className_of (Some 2)) = Some CAR"
  by (simp add: className_of_def nth_opt_def COCO_CLASSES_def VEHICLE_CLASS_MAP_def)







subsection \<open>Bounding boxes\<close>

lemma row_nth_opt:
  assumes "take 4 (drop n xs) = [a, b, c, d]"
  shows "nth_opt xs n = Some a" "nth_opt xs (n + 1) = Some b"
    "nth_opt xs (n + 2) = Some c" "nth_opt xs (n + 3) = Some d"
proof -
  from assms have len: "length (take 4 (drop n xs)) = 4" by simp
  then have l: "n + 4 \<le> length xs" by (simp add: min_def split: if_splits)
  have nth: "xs ! (n + k) = [a, b, c, d] ! k" if "k < 4" for k
    using that l nth_take [of k 4 "drop n xs"] assms by simp
  show "nth_opt xs n = Some a" using nth [of 0] l by (simp add: nth_opt_def)
  show "nth_opt xs (n + 1) = Some b" using nth [of 1] l by (simp add: nth_opt_def)
  show "nth_opt xs (n + 2) = Some c" using nth [of 2] l by (simp add: nth_opt_def)
  show "nth_opt xs (n + 3) = Some d" using nth [of 3] l by (simp add: nth_opt_def)
qed

lemma decode_bboxes:
  "map bbox (fst (postProcessLoop 0 (Some K) boxes classes scores [] w)) =
     map (\<lambda>i. \<lparr>x_bb = times_num (to_number (nth_opt boxes (i * 4 + 1))) (Num 320),
      y_bb = times_num (to_number (nth_opt boxes (i * 4))) (Num 320),
      width_bb = times_num (minus_num (to_number (nth_opt boxes (i * 4 + 3)))
                                      (to_number (nth_opt boxes (i * 4 + 1)))) (Num 320),
      height_bb = times_num (minus_num (to_number (nth_opt boxes (i * 4 + 2)))
                                       (to_number (nth_opt boxes (i * 4)))) (Num 320)\<rparr>)
       (kept_entries classes scores K)"
  using postProcessLoop_map [of bbox boxes _ 0 "Some K" classes scores "[]" w,
      OF decoded_vehicle_fields(4)]
  by (simp add: kept_entries_def considered_def)

lemma kept_one: "kept_entries [2] [0.75] 1 = [0]" "kept_entries [2] [3 / 4] 1 = [0]"
  unfolding kept_entries_eq double_03
  by (simp_all add: nth_opt_def vehicle_label_car)

lemma decoded_length:
  "length (decoded (boxes # classes # scores # (K # ks) # rest) w) =
     length (kept_entries classes scores K)"
  using postProcessLoop_length [of 0 "Some K" boxes classes scores "[]" w]
  by (simp add: decoded_four kept_entries_def considered_def)

text \<open>The box of the one entry of a raw output with one entry, a car with score 0.75.\<close>

lemma decoded_one_bbox:
  "map bbox (decoded [[y1, x1, y2, x2], [2], [0.75], [1]] w) =
     [\<lparr>x_bb = Num (to_double (x1 * 320)), y_bb = Num (to_double (y1 * 320)),
       width_bb = Num (to_double (to_double (x2 - x1) * 320)),
       height_bb = Num (to_double (to_double (y2 - y1) * 320))\<rparr>]"
  unfolding decoded_four decode_bboxes kept_one
  by (simp add: nth_opt_def to_number_def)

text \<open>The row \<open>[0.1, 0.2, 0.5, 0.6]\<close>, as a tensor stores it and as binary64 numbers.\<close>

lemma example_row_float32:
  "to_double (13421773 / 2 ^ 26 * 320) = 67108865 / 2 ^ 20"
  "to_double (13421773 / 2 ^ 27 * 320) = 67108865 / 2 ^ 21"
  "to_double (to_double (5033165 / 2 ^ 23 - 13421773 / 2 ^ 26) * 320) = 134217735 / 2 ^ 20"
  "to_double (to_double (1 / 2 - 13421773 / 2 ^ 27) * 320) = 268435455 / 2 ^ 21"
  by (simp_all add: to_double_fine to_double_small)

lemma double_values:
  "to_double 0.2 = 3602879701896397 / 2 ^ 54"
  "to_double 0.6 = 5404319552844595 / 2 ^ 53"
  unfolding to_double_def
   apply (subst round_to_eval [where e = "- 3"], simp, simp, simp add: round_even_def power_int_minus_divide)
  apply (subst round_to_eval [where e = "- 1"], simp, simp, simp add: round_even_def power_int_minus_divide)
  done

lemma example_width_double:
  "to_double (to_double (to_double 0.6 - to_double 0.2) * 320) = 128 - 1 / 2 ^ 46"
proof -
  have "to_double (to_double 0.6 - to_double 0.2) = to_double (7205759403792793 / 2 ^ 54)"
    unfolding double_values by simp
  also have "\<dots> = 7205759403792793 / 2 ^ 54"
    unfolding to_double_def by (rule round_to_dyadic [where k = 54]) simp_all
  finally have inner: "to_double (to_double 0.6 - to_double 0.2) = 7205759403792793 / 2 ^ 54" .
  show ?thesis
    unfolding inner unfolding to_double_def
    by (subst round_to_eval [where e = 6]) (simp_all add: round_even_def power_int_minus_divide)
qed

lemma map_single_nth: "map f xs = [v] \<Longrightarrow> f (xs ! 0) = v"
  by (cases xs) auto

text \<open>
  C4, as stated, has the row \<open>[0.1, 0.2, 0.5, 0.6]\<close> decode to
  \<open>{x: 64, y: 32, width: 128, height: 128}\<close>. The boxes are read from a
  \<^verbatim>\<open>Float32Array\<close>, which stores these four numbers as the binary32 numbers nearest to
  them; the decoder then returns 64.00000095367432, 32.00000047683716,
  128.00000667572021 and 127.99999952316284. Even on the binary64 numbers nearest to
  0.2 and 0.6 the width is \<open>128 - 2\<^sup>-\<^sup>4\<^sup>6\<close>, not 128.
\<close>

theorem example_row_inexact:
  "bbox (decoded [map fround [0.1, 0.2, 0.5, 0.6], [2], [0.75], [1]] world0 ! 0) =
     \<lparr>x_bb = Num (67108865 / 2 ^ 20), y_bb = Num (67108865 / 2 ^ 21),
      width_bb = Num (134217735 / 2 ^ 20), height_bb = Num (268435455 / 2 ^ 21)\<rparr> \<and>
   bbox (decoded [map fround [0.1, 0.2, 0.5, 0.6], [2], [0.75], [1]] world0 ! 0) \<noteq>
     \<lparr>x_bb = Num 64, y_bb = Num 32, width_bb = Num 128, height_bb = Num 128\<rparr> \<and>
   width_bb (bbox (decoded [map to_double [0.1, 0.2, 0.5, 0.6], [2], [0.75], [1]] world0 ! 0)) =
     Num (128 - 1 / 2 ^ 46)"
proof -
  have "map bbox (decoded [map fround [0.1, 0.2, 0.5, 0.6], [2], [0.75], [1]] world0) =
     [\<lparr>x_bb = Num (67108865 / 2 ^ 20), y_bb = Num (67108865 / 2 ^ 21),
      width_bb = Num (134217735 / 2 ^ 20), height_bb = Num (268435455 / 2 ^ 21)\<rparr>]"
    unfolding list.map fround_values decoded_one_bbox example_row_float32 by (rule refl)
  then have a: "bbox (decoded [map fround [0.1, 0.2, 0.5, 0.6], [2], [0.75], [1]] world0 ! 0) =
     \<lparr>x_bb = Num (67108865 / 2 ^ 20), y_bb = Num (67108865 / 2 ^ 21),
      width_bb = Num (134217735 / 2 ^ 20), height_bb = Num (268435455 / 2 ^ 21)\<rparr>"
    by (rule map_single_nth)
  have b: "bbox (decoded [map fround [0.1, 0.2, 0.5, 0.6], [2], [0.75], [1]] world0 ! 0) \<noteq>
     \<lparr>x_bb = Num 64, y_bb = Num 32, width_bb = Num 128, height_bb = Num 128\<rparr>"
    unfolding a by simp
  have "map bbox (decoded [map to_double [0.1, 0.2, 0.5, 0.6], [2], [0.75], [1]] world0) =
     [\<lparr>x_bb = Num (to_double (to_double 0.2 * 320)), y_bb = Num (to_double (to_double 0.1 * 320)),
       width_bb = Num (to_double (to_double (to_double 0.6 - to_double 0.2) * 320)),
       height_bb = Num (to_double (to_double (to_double 0.5 - to_double 0.1) * 320))\<rparr>]"
    unfolding list.map decoded_one_bbox by (rule refl)
  then have "bbox (decoded [map to_double [0.1, 0.2, 0.5, 0.6], [2], [0.75], [1]] world0 ! 0) =
     \<lparr>x_bb = Num (to_double (to_double 0.2 * 320)), y_bb = Num (to_double (to_double 0.1 * 320)),
       width_bb = Num (to_double (to_double (to_double 0.6 - to_double 0.2) * 320)),
       height_bb = Num (to_double (to_double (to_double 0.5 - to_double 0.1) * 320))\<rparr>"
    by (rule map_single_nth)
  then have c: "width_bb (bbox (decoded [map to_double [0.1, 0.2, 0.5, 0.6], [2], [0.75], [1]] world0 ! 0)) =
     Num (128 - 1 / 2 ^ 46)"
    by (simp only: BBox.simps example_width_double)
  from a b c show ?thesis by blast
qed

text \<open>
  C4, amended. An emitted detection that comes from the entry with box row
  \<open>[y1, x1, y2, x2]\<close> has the bounding box \<open>x = fl (x1 * 320)\<close>, \<open>y = fl (y1 * 320)\<close>,
  \<open>width = fl (fl (x2 - x1) * 320)\<close>, \<open>height = fl (fl (y2 - y1) * 320)\<close>, where \<open>fl\<close>
  rounds to binary64; the \<open>j\<close>-th emitted detection comes from the \<open>j\<close>-th kept entry.
  For \<open>x1\<close> and \<open>y1\<close> read from a \<^verbatim>\<open>Float32Array\<close> the products are exact:
  \<open>x = x1 * 320\<close> and \<open>y = y1 * 320\<close>. The row \<open>[0.1, 0.2, 0.5, 0.6]\<close>, stored as binary32
  numbers, gives \<open>x = 67108865 / 2\<^sup>2\<^sup>0\<close>, \<open>y = 67108865 / 2\<^sup>2\<^sup>1\<close>,
  \<open>width = 134217735 / 2\<^sup>2\<^sup>0\<close> and \<open>height = 268435455 / 2\<^sup>2\<^sup>1\<close>, that is
  64.00000095367432, 32.00000047683716, 128.00000667572021 and 127.99999952316284.
\<close>

theorem bbox_pixels:
  assumes "postProcessDetections (boxes # classes # scores # (K # ks) # rest) w = Inr (ds, w')"
    and "j < length ds"
    and "take 4 (drop (kept_entries classes scores K ! j * 4) boxes) = [y1, x1, y2, x2]"
  shows "bbox (ds ! j) =
           \<lparr>x_bb = Num (to_double (x1 * 320)), y_bb = Num (to_double (y1 * 320)),
            width_bb = Num (to_double (to_double (x2 - x1) * 320)),
            height_bb = Num (to_double (to_double (y2 - y1) * 320))\<rparr> \<and>
         (is_float32 x1 \<longrightarrow> x_bb (bbox (ds ! j)) = Num (x1 * 320)) \<and>
         (is_float32 y1 \<longrightarrow> y_bb (bbox (ds ! j)) = Num (y1 * 320)) \<and>
         ([y1, x1, y2, x2] = map fround [0.1, 0.2, 0.5, 0.6] \<longrightarrow>
            bbox (ds ! j) =
              \<lparr>x_bb = Num (67108865 / 2 ^ 20), y_bb = Num (67108865 / 2 ^ 21),
               width_bb = Num (134217735 / 2 ^ 20), height_bb = Num (268435455 / 2 ^ 21)\<rparr>)"
proof -
  from assms(1) have ds: "ds = fst (postProcessLoop 0 (Some K) boxes classes scores [] w)"
    by (simp add: postProcessDetections_four nth_opt_def [of "K # ks"])
  have len: "length ds = length (kept_entries classes scores K)"
    using postProcessLoop_length [of 0 "Some K" boxes classes scores "[]" w]
    by (simp add: ds kept_entries_def considered_def)
  let ?i = "kept_entries classes scores K ! j"
  have "bbox (ds ! j) = map bbox ds ! j" using assms(2) by simp
  also have "\<dots> = \<lparr>x_bb = times_num (to_number (nth_opt boxes (?i * 4 + 1))) (Num 320),
      y_bb = times_num (to_number (nth_opt boxes (?i * 4))) (Num 320),
      width_bb = times_num (minus_num (to_number (nth_opt boxes (?i * 4 + 3)))
                                      (to_number (nth_opt boxes (?i * 4 + 1)))) (Num 320),
      height_bb = times_num (minus_num (to_number (nth_opt boxes (?i * 4 + 2)))
                                       (to_number (nth_opt boxes (?i * 4)))) (Num 320)\<rparr>"
    using assms(2) len unfolding ds decode_bboxes by simp
  also have "\<dots> = \<lparr>x_bb = Num (to_double (x1 * 320)), y_bb = Num (to_double (y1 * 320)),
            width_bb = Num (to_double (to_double (x2 - x1) * 320)),
            height_bb = Num (to_double (to_double (y2 - y1) * 320))\<rparr>"
    unfolding row_nth_opt [OF assms(3)] by (simp add: to_number_def)
  finally have g: "bbox (ds ! j) =
           \<lparr>x_bb = Num (to_double (x1 * 320)), y_bb = Num (to_double (y1 * 320)),
            width_bb = Num (to_double (to_double (x2 - x1) * 320)),
            height_bb = Num (to_double (to_double (y2 - y1) * 320))\<rparr>" .
  have gx: "is_float32 x1 \<longrightarrow> x_bb (bbox (ds ! j)) = Num (x1 * 320)"
    unfolding g by (simp add: float32_times_320)
  have gy: "is_float32 y1 \<longrightarrow> y_bb (bbox (ds ! j)) = Num (y1 * 320)"
    unfolding g by (simp add: float32_times_320)
  have ge: "[y1, x1, y2, x2] = map fround [0.1, 0.2, 0.5, 0.6] \<longrightarrow>
            bbox (ds ! j) =
              \<lparr>x_bb = Num (67108865 / 2 ^ 20), y_bb = Num (67108865 / 2 ^ 21),
               width_bb = Num (134217735 / 2 ^ 20), height_bb = Num (268435455 / 2 ^ 21)\<rparr>"
  proof
    assume "[y1, x1, y2, x2] = map fround [0.1, 0.2, 0.5, 0.6]"
    then have "y1 = 13421773 / 2 ^ 27" "x1 = 13421773 / 2 ^ 26" "y2 = 1 / 2" "x2 = 5033165 / 2 ^ 23"
      unfolding list.map fround_values by simp_all
    then show "bbox (ds ! j) =
              \<lparr>x_bb = Num (67108865 / 2 ^ 20), y_bb = Num (67108865 / 2 ^ 21),
               width_bb = Num (134217735 / 2 ^ 20), height_bb = Num (268435455 / 2 ^ 21)\<rparr>"
      unfolding g by (simp only: example_row_float32)
  qed
  show ?thesis
    by (rule conjI [OF g conjI [OF gx conjI [OF gy ge]]])
qed

theorem bbox_pixels_witness:
  "bbox (decoded [[0.125, 0.25, 0.5, 0.75], [2], [0.75], [1]] world0 ! 0) =
     \<lparr>x_bb = Num 80, y_bb = Num 40, width_bb = Num 160, height_bb = Num 120\<rparr> \<and>
   x_bb (bbox (decoded [map fround [0.1, 0.2, 0.5, 0.6], [2], [0.75], [1]] world0 ! 0)) =
     Num (fround 0.2 * 320) \<and>
   y_bb (bbox (decoded [map fround [0.1, 0.2, 0.5, 0.6], [2], [0.75], [1]] world0 ! 0)) =
     Num (fround 0.1 * 320) \<and>
   width_bb (bbox (decoded [map fround [0.1, 0.2, 0.5, 0.6], [2], [0.75], [1]] world0 ! 0)) =
     Num (134217735 / 2 ^ 20)"
proof -
  obtain ds w' where r: "postProcessDetections [[0.125, 0.25, 0.5, 0.75], [2], [0.75], [1]] world0 = Inr (ds, w')"
    using postProcessDetections_Inr by blast
  then have ds: "ds = decoded [[0.125, 0.25, 0.5, 0.75], [2], [0.75], [1]] world0"
    by (simp add: decoded_def)
  have len: "0 < length ds"
    using decoded_length [of "[0.125, 0.25, 0.5, 0.75]" "[2]" "[0.75]" 1 "[]" "[]" world0]
    by (simp add: ds kept_one)
  have row: "take 4 (drop (kept_entries [2] [0.75] 1 ! 0 * 4) [0.125, 0.25, 0.5, 0.75]) =
      [0.125, 0.25, 0.5, 0.75::real]"
    by (simp add: kept_one)
  have a: "bbox (decoded [[0.125, 0.25, 0.5, 0.75], [2], [0.75], [1]] world0 ! 0) =
     \<lparr>x_bb = Num 80, y_bb = Num 40, width_bb = Num 160, height_bb = Num 120\<rparr>"
    using bbox_pixels [OF r len row, THEN conjunct1]
    by (simp add: ds to_double_fine to_double_small)
  obtain es v' where q: "postProcessDetections [map fround [0.1, 0.2, 0.5, 0.6], [2], [0.75], [1]] world0 =
      Inr (es, v')"
    using postProcessDetections_Inr by blast
  then have es: "es = decoded [map fround [0.1, 0.2, 0.5, 0.6], [2], [0.75], [1]] world0"
    by (simp add: decoded_def)
  have len': "0 < length es"
    using decoded_length [of "map fround [0.1, 0.2, 0.5, 0.6]" "[2]" "[0.75]" 1 "[]" "[]" world0]
    by (simp add: es kept_one)
  have row': "take 4 (drop (kept_entries [2] [0.75] 1 ! 0 * 4) (map fround [0.1, 0.2, 0.5, 0.6])) =
      [fround 0.1, fround 0.2, fround 0.5, fround 0.6]"
    by (simp add: kept_one)
  note t = bbox_pixels [OF q len' row']
  have f: "is_float32 (fround 0.2)" "is_float32 (fround 0.1)"
    unfolding is_float32_def fround_values
    by (rule fround_dyadic [where k = 26], simp, simp, simp)
      (rule fround_dyadic [where k = 27], simp, simp, simp)
  have b: "x_bb (bbox (decoded [map fround [0.1, 0.2, 0.5, 0.6], [2], [0.75], [1]] world0 ! 0)) =
     Num (fround 0.2 * 320)"
    using t [THEN conjunct2, THEN conjunct1] f(1) unfolding es by (rule mp)
  have c: "y_bb (bbox (decoded [map fround [0.1, 0.2, 0.5, 0.6], [2], [0.75], [1]] world0 ! 0)) =
     Num (fround 0.1 * 320)"
    using t [THEN conjunct2, THEN conjunct2, THEN conjunct1] f(2) unfolding es by (rule mp)
  have "[fround 0.1, fround 0.2, fround 0.5, fround 0.6] = map fround [0.1, 0.2, 0.5, 0.6]"
    by simp
  with t [THEN conjunct2, THEN conjunct2, THEN conjunct2]
  have "bbox (es ! 0) =
              \<lparr>x_bb = Num (67108865 / 2 ^ 20), y_bb = Num (67108865 / 2 ^ 21),
               width_bb = Num (134217735 / 2 ^ 20), height_bb = Num (268435455 / 2 ^ 21)\<rparr>"
    by (rule mp)
  then have d: "width_bb (bbox (decoded [map fround [0.1, 0.2, 0.5, 0.6], [2], [0.75], [1]] world0 ! 0)) =
     Num (134217735 / 2 ^ 20)"
    unfolding es by (simp only: BBox.simps)
  from a b c d show ?thesis by blast
qed


subsection \<open>Malformed output\<close>








subsection \<open>Categories of the decoder and of the simulation\<close>

lemma vehicle_map_range:
  "VEHICLE_CLASS_MAP l = Some vt \<Longrightarrow> vt \<in> {BICYCLE, CAR, MOTORCYCLE, BUS, TRUCK}"
  by (auto simp: VEHICLE_CLASS_MAP_def split: if_splits)

lemma postProcess_try_Inr:
  "postProcess_try predictions w = Inr res \<Longrightarrow>
   \<exists>boxes classes scores nd. res = postProcessLoop 0 (nth_opt nd 0) boxes classes scores [] w"
  by (auto simp: postProcess_try_def split: option.splits)

lemma postProcessLoop_types:
  "d \<in> set (fst (postProcessLoop 0 m boxes classes scores [] w)) \<Longrightarrow>
   type_dv d \<in> {BICYCLE, CAR, MOTORCYCLE, BUS, TRUCK}"
proof -
  assume "d \<in> set (fst (postProcessLoop 0 m boxes classes scores [] w))"
  then have "type_dv d \<in> set (map type_dv (fst (postProcessLoop 0 m boxes classes scores [] w)))"
    by simp
  then obtain j where j: "keeps classes scores j"
    and t: "type_dv d = the (VEHICLE_CLASS_MAP (className_of (nth_opt classes j)))"
    unfolding postProcessLoop_map [of type_dv boxes "\<lambda>_ _ vt. vt", OF decoded_vehicle_fields(1)]
    by auto
  from j obtain vt where "VEHICLE_CLASS_MAP (className_of (nth_opt classes j)) = Some vt"
    by (auto simp: keeps_def split: option.splits)
  with t show ?thesis using vehicle_map_range by fastforce
qed

text \<open>
  C6. Whatever the raw output, every detection the decoder emits has category bicycle,
  car, motorcycle, bus or truck, never van and never unknown; the simulation generator
  can return a van.
\<close>

theorem decoder_never_van:
  "(postProcessDetections predictions w = Inr (ds, w') \<and> d \<in> set ds \<longrightarrow>
      type_dv d \<in> {BICYCLE, CAR, MOTORCYCLE, BUS, TRUCK} \<and> type_dv d \<noteq> VAN \<and> type_dv d \<noteq> UNKNOWN) \<and>
   (\<exists>w0. VAN \<in> type_dv ` set (fst (simulateDetection w0)))"
proof
  show "postProcessDetections predictions w = Inr (ds, w') \<and> d \<in> set ds \<longrightarrow>
      type_dv d \<in> {BICYCLE, CAR, MOTORCYCLE, BUS, TRUCK} \<and> type_dv d \<noteq> VAN \<and> type_dv d \<noteq> UNKNOWN"
  proof (intro impI, elim conjE)
    assume r: "postProcessDetections predictions w = Inr (ds, w')" and d: "d \<in> set ds"
    have "type_dv d \<in> {BICYCLE, CAR, MOTORCYCLE, BUS, TRUCK}"
    proof (cases "postProcess_try predictions w")
      case (Inl e)
      with r d show ?thesis by (simp add: postProcessDetections_def)
    next
      case (Inr res)
      with r have "res = (ds, w')" by (simp add: postProcessDetections_def)
      with postProcess_try_Inr [OF Inr] d show ?thesis
        using postProcessLoop_types by (metis fst_conv)
    qed
    then show "type_dv d \<in> {BICYCLE, CAR, MOTORCYCLE, BUS, TRUCK} \<and> type_dv d \<noteq> VAN \<and> type_dv d \<noteq> UNKNOWN"
      by auto
  qed
  have "VAN \<in> set (map type_dv (fst (simulateDetection world_mbv)))"
    by (simp add: simulated_types_mbv)
  then show "\<exists>w0. VAN \<in> type_dv ` set (fst (simulateDetection w0))"
    by (intro exI [of _ world_mbv]) simp
qed

theorem decoder_never_van_witness:
  "map type_dv (decoded [[0.125, 0.25, 0.5, 0.75], [2], [0.75], [1]] world0) = [CAR] \<and>
   type_dv (decoded [[0.125, 0.25, 0.5, 0.75], [2], [0.75], [1]] world0 ! 0) \<noteq> VAN \<and>
   type_dv (decoded [[0.125, 0.25, 0.5, 0.75], [2], [0.75], [1]] world0 ! 0) \<noteq> UNKNOWN"
proof -
  obtain ds w' where r: "postProcessDetections [[0.125, 0.25, 0.5, 0.75], [2], [0.75], [1]] world0 = Inr (ds, w')"
    using postProcessDetections_Inr by blast
  then have ds: "ds = decoded [[0.125, 0.25, 0.5, 0.75], [2], [0.75], [1]] world0"
    by (simp add: decoded_def)
  have tys: "map type_dv (decoded [[0.125, 0.25, 0.5, 0.75], [2], [0.75], [1]] world0) = [CAR]"
    unfolding decoded_four
      postProcessLoop_map [of type_dv _ "\<lambda>_ _ vt. vt", OF decoded_vehicle_fields(1)]
    using kept_one by (simp add: kept_entries_def considered_def vehicle_label_car nth_opt_def)
  then have "length (map type_dv ds) = 1"
    unfolding ds [symmetric] by simp
  then have "ds ! 0 \<in> set ds"
    by simp
  with decoder_never_van [of "[[0.125, 0.25, 0.5, 0.75], [2], [0.75], [1]]" world0 ds w' "ds ! 0"] r
  have "type_dv (ds ! 0) \<noteq> VAN \<and> type_dv (ds ! 0) \<noteq> UNKNOWN"
    by blast
  with tys show ?thesis
    unfolding ds by blast
qed


section \<open>Properties of the service\<close>

subsection \<open>Initialisation\<close>

text \<open>
  C8. \<open>initialize\<close> returns normally for every outcome of the two awaited steps. When
  both succeed the model is loaded (\<open>isRealModelLoaded\<close> holds) and detection takes the
  real path; when either fails \<open>isRealModelLoaded\<close> is false and detection takes the
  simulation path.
\<close>

theorem initialize_never_throws:
  "\<exists>s' w'. initialize ready loaded s w = Inr (s', w') \<and>
     (ready = None \<and> (\<exists>m. loaded = Inr m) \<longrightarrow>
        isRealModelLoaded s' \<and> model s' \<noteq> None \<and>
        (\<forall>h w2 raw. detectVehicles s' h w2 raw = detect_real s' h w2 raw)) \<and>
     (\<not> (ready = None \<and> (\<exists>m. loaded = Inr m)) \<longrightarrow>
        \<not> isRealModelLoaded s' \<and>
        (\<forall>h w2 raw. detectVehicles s' h w2 raw = detect_simulated s' h w2))"
  by (cases ready; cases loaded)
    (simp_all add: initialize_def initialize_catch_def isRealModelLoaded_def detectVehicles_def Let_def)

theorem initialize_never_throws_witness:
  "(\<exists>s' w'. initialize None (Inr (GraphModel ''ssd_mobilenet_v2'')) busy_service world0 = Inr (s', w') \<and>
      isRealModelLoaded s') \<and>
   (\<exists>s' w'. initialize None (Inl (Error ''Failed to fetch'')) busy_service world0 = Inr (s', w') \<and>
      \<not> isRealModelLoaded s' \<and>
      detectVehicles s' busy_heap world0 (Inr []) = detect_simulated s' busy_heap world0)"
  using initialize_never_throws [of None "Inr (GraphModel ''ssd_mobilenet_v2'')" busy_service world0]
    initialize_never_throws [of None "Inl (Error ''Failed to fetch'')" busy_service world0]
  by auto


subsection \<open>Detections are appended to the history\<close>

lemma new_vehicles_refs: "fst (new_vehicles ds h) = [next_ref h..<next_ref h + length ds]"
proof (induction ds arbitrary: h)
  case Nil
  show ?case by simp
next
  case (Cons d ds)
  have "[next_ref h..<next_ref h + length (d # ds)] =
      next_ref h # [Suc (next_ref h)..<Suc (next_ref h) + length ds]"
    by (simp add: upt_conv_Cons del: upt_Suc)
  moreover have "fst (new_vehicles (d # ds) h) =
      next_ref h # fst (new_vehicles ds (snd (new_vehicle d h)))"
    by (simp add: case_prod_beta new_vehicle_def)
  moreover have "next_ref (snd (new_vehicle d h)) = Suc (next_ref h)"
    by (simp add: new_vehicle_def)
  ultimately show ?case
    by (simp only: Cons)
qed

lemma new_vehicles_old:
  "r < next_ref h \<Longrightarrow> vehicles_at (snd (new_vehicles ds h)) r = vehicles_at h r"
  by (induction ds arbitrary: h) (simp_all add: case_prod_beta new_vehicle_def)

lemma new_vehicles_new:
  "map (vehicles_at (snd (new_vehicles ds h))) (fst (new_vehicles ds h)) = ds"
proof (induction ds arbitrary: h)
  case Nil
  show ?case by simp
next
  case (Cons d ds)
  have "vehicles_at (snd (new_vehicles ds (snd (new_vehicle d h)))) (next_ref h) = d"
    by (subst new_vehicles_old) (simp_all add: new_vehicle_def)
  then show ?case
    by (simp add: case_prod_beta Cons) (simp add: new_vehicle_def)
qed

lemma stored_history:
  fixes ds :: "DetectedVehicle list"
  assumes "owns s h" and "history_allocated s h"
  defines "h1 \<equiv> snd (new_detections ds h)" and "a \<equiv> fst (new_detections ds h)"
  defines "h3 \<equiv> push_all (detectedVehicles s) (arrays_at (updateVehicleCounts s (arrays_at h1 a) h1) a)
                   (updateVehicleCounts s (arrays_at h1 a) h1)"
  shows "history s h3 = history s h @ ds" and "history_allocated s h3"
proof -
  have a: "a = next_ref h + length ds" by (simp add: a_def)
  have arr1: "arrays_at h1 = (arrays_at h)(a := [next_ref h..<next_ref h + length ds])"
    by (simp add: h1_def a new_detections_def new_array_def case_prod_beta new_vehicles_refs)
  have veh1: "vehicles_at h1 = vehicles_at (snd (new_vehicles ds h))"
    by (simp add: h1_def new_detections_def new_array_def case_prod_beta)
  from assms(1) have ne: "detectedVehicles s \<noteq> a" by (simp add: owns_def a)
  have arr3: "arrays_at h3 (detectedVehicles s) =
      arrays_at h (detectedVehicles s) @ [next_ref h..<next_ref h + length ds]"
    using ne by (simp add: h3_def push_all_def arr1)
  have veh3: "vehicles_at h3 = vehicles_at (snd (new_vehicles ds h))"
    by (simp add: h3_def veh1)
  have old: "map (vehicles_at (snd (new_vehicles ds h))) (arrays_at h (detectedVehicles s)) =
      map (vehicles_at h) (arrays_at h (detectedVehicles s))"
    using assms(2) by (simp add: history_allocated_def new_vehicles_old)
  have new: "map (vehicles_at (snd (new_vehicles ds h))) [next_ref h..<next_ref h + length ds] = ds"
    using new_vehicles_new [of ds h] by (simp add: new_vehicles_refs)
  show "history s h3 = history s h @ ds"
    by (simp only: history_eq arr3 veh3 map_append old new)
  have "next_ref h3 = Suc (next_ref h + length ds)"
    by (simp add: h3_def h1_def)
  then show "history_allocated s h3"
    using assms(2) by (auto simp: history_allocated_def arr3)
qed

lemma detect_simulated_history:
  assumes "owns s h" and "history_allocated s h"
    and "detect_simulated s h w = Inr (a, h', w')"
  shows "history s h' =
           history s h @ fst (simulateDetection (console_log ''Using simulation mode - model not loaded'' w))"
    and "w' = snd (simulateDetection (console_log ''Using simulation mode - model not loaded'' w))"
    and "history_allocated s h'"
  using assms(3) stored_history [OF assms(1,2)]
  by (simp_all add: detect_simulated_def Let_def case_prod_beta) blast+


subsection \<open>Identifiers\<close>

lemma show_nat_clock: "show_nat 1700000000000 = ''1700000000000''"
  by (simp add: show_nat.simps)

lemma show_nat_digits: "show_nat 0 = ''0''" "show_nat (Suc 0) = ''1''"
  by (simp_all add: show_nat.simps)

lemma upt2: "[0..<2] = [0, Suc 0]"
  by (simp add: numeral_2_eq_2)

lemma ids_half:
  assumes "rnd w = (\<lambda>_. unit_of (1 / 2))" and "clock w = (\<lambda>_. 1700000000000)"
  shows "map id_dv (fst (simulateDetection w)) =
           [''vehicle_1700000000000_0'', ''vehicle_1700000000000_1'']"
  by (simp add: simulateDetection_eq assms unit_of.rep_eq upt2 simulated_vehicle_fields
      show_nat_clock show_nat_digits to_double_fine)

lemma consecutive_calls_same_ids:
  "map id_dv (fst (simulateDetection world0)) =
     [''vehicle_1700000000000_0'', ''vehicle_1700000000000_1''] \<and>
   map id_dv (fst (simulateDetection (snd (simulateDetection world0)))) =
     [''vehicle_1700000000000_0'', ''vehicle_1700000000000_1'']"
proof -
  have r: "rnd world0 = (\<lambda>_. unit_of (1 / 2))" and c: "clock world0 = (\<lambda>_. 1700000000000)"
    by (simp_all add: world0_def world_of_def)
  have "rnd (snd (simulateDetection world0)) = (\<lambda>_. unit_of (1 / 2))"
    "clock (snd (simulateDetection world0)) = (\<lambda>_. 1700000000000)"
    using r c by (simp_all add: simulateDetection_world)
  then show ?thesis using r c by (simp add: ids_half)
qed

text \<open>
  C9 asks for distinct ids. Two calls of \<open>detectVehicles\<close> on the simulation path whose
  clock readings fall in the same millisecond leave four detections in the history, with
  two pairs of equal ids: the id is made of the clock reading and the loop index, and
  the index starts at 0 in every call.
\<close>

theorem session_id_collision:
  "map id_dv
     (history (fst (run [DetectVehicles (Inl (Error ''no image'')), DetectVehicles (Inl (Error ''no image''))]
                      (fst (new_service heap0), snd (new_service heap0), world0)))
              (fst (snd (run [DetectVehicles (Inl (Error ''no image'')), DetectVehicles (Inl (Error ''no image''))]
                      (fst (new_service heap0), snd (new_service heap0), world0))))) =
   [''vehicle_1700000000000_0'', ''vehicle_1700000000000_1'',
    ''vehicle_1700000000000_0'', ''vehicle_1700000000000_1'']"
proof -
  define s where "s = fst (new_service heap0)"
  define h where "h = snd (new_service heap0)"
  define msg where "msg = ''Using simulation mode - model not loaded''"
  have sim: "\<not> (isModelLoaded s \<and> model s \<noteq> None)"
    by (simp add: s_def new_service_def new_array_def new_count_def)
  have o: "owns s h" and al: "history_allocated s h" and h0: "history s h = []"
    by (simp_all add: s_def h_def owns_def history_allocated_def history_eq new_service_def
        new_array_def new_count_def heap0_def)
  obtain a1 h1 w1 where d1: "detect_simulated s h world0 = Inr (a1, h1, w1)"
    by (simp add: detect_simulated_def Let_def case_prod_beta)
  note r1 = detect_simulated_history [OF o al d1]
  have o1: "owns s h1"
    using detect_simulated_inv [of s h world0 a1 h1 w1] o d1 h0
    by (simp add: session_inv_def s_def h_def new_service_def new_array_def new_count_def
        heap0_def zero_count_def sum_counts_def)
  obtain a2 h2 w2 where d2: "detect_simulated s h1 w1 = Inr (a2, h2, w2)"
    by (simp add: detect_simulated_def Let_def case_prod_beta)
  note r2 = detect_simulated_history [OF o1 r1(3) d2]
  have dv: "detectVehicles s hh ww raw = detect_simulated s hh ww" for hh ww raw
    using sim by (auto simp: detectVehicles_def)
  have run: "run [DetectVehicles (Inl (Error ''no image'')), DetectVehicles (Inl (Error ''no image''))]
               (fst (new_service heap0), snd (new_service heap0), world0) = (s, h2, w2)"
    unfolding s_def [symmetric] h_def [symmetric] by (simp add: dv d1 d2)
  have rc0: "rnd (console_log m world0) = (\<lambda>_. unit_of (1 / 2))"
    "clock (console_log m world0) = (\<lambda>_. 1700000000000)" for m
    by (simp_all add: console_log_def world0_def world_of_def)
  have rc1: "rnd (console_log m w1) = (\<lambda>_. unit_of (1 / 2))"
    "clock (console_log m w1) = (\<lambda>_. 1700000000000)" for m
    using rc0 [of msg] by (simp_all add: r1(2) console_log_def simulateDetection_world msg_def)
  have "map id_dv (history s h2) =
      map id_dv (fst (simulateDetection (console_log msg world0))) @
      map id_dv (fst (simulateDetection (console_log msg w1)))"
    by (simp add: r2(1) r1(1) h0 msg_def)
  also have "\<dots> = [''vehicle_1700000000000_0'', ''vehicle_1700000000000_1'',
    ''vehicle_1700000000000_0'', ''vehicle_1700000000000_1'']"
    by (simp add: ids_half [OF rc0] ids_half [OF rc1])
  finally show ?thesis unfolding run by simp
qed

subsection \<open>Read accessors\<close>

text \<open>The hypothesis of the next theorem holds in every state of a session.\<close>

lemma session_owns:
  "run cs (fst (new_service h0), snd (new_service h0), w0) = (s, h, w) \<Longrightarrow> owns s h"
  using run_inv [OF new_service_inv, of cs h0 w0]
  by (simp add: session_inv_def)

text \<open>
  C10, amended. The two read accessors return new objects: calling them changes neither
  the snapshot nor the history, and whatever the caller then writes into the returned
  count object or into the returned array, the snapshot and the history stay as they
  were. The copies are shallow.
\<close>

theorem accessors_shallow_copies:
  assumes "owns s h"
  shows "counts_at (snd (getVehicleCount s h)) (fst (getVehicleCount s h)) = snapshot s h \<and>
         snapshot s (snd (getVehicleCount s h)) = snapshot s h \<and>
         history s (snd (getVehicleCount s h)) = history s h \<and>
         (\<forall>c. snapshot s (write_count (fst (getVehicleCount s h)) c (snd (getVehicleCount s h))) = snapshot s h \<and>
              history s (write_count (fst (getVehicleCount s h)) c (snd (getVehicleCount s h))) = history s h) \<and>
         map (vehicles_at (snd (getDetectedVehicles s h)))
           (arrays_at (snd (getDetectedVehicles s h)) (fst (getDetectedVehicles s h))) = history s h \<and>
         snapshot s (snd (getDetectedVehicles s h)) = snapshot s h \<and>
         history s (snd (getDetectedVehicles s h)) = history s h \<and>
         (\<forall>xs. snapshot s (write_array (fst (getDetectedVehicles s h)) xs (snd (getDetectedVehicles s h))) = snapshot s h \<and>
               history s (write_array (fst (getDetectedVehicles s h)) xs (snd (getDetectedVehicles s h))) = history s h)"
  using assms
  by (simp add: owns_def snapshot_eq history_eq getVehicleCount_def getDetectedVehicles_def
      new_count_def new_array_def write_count_def write_array_def)


theorem accessors_shallow_copies_witness:
  "owns busy_service busy_heap \<and>
   snapshot busy_service
     (write_count (fst (getVehicleCount busy_service busy_heap)) zero_count
        (snd (getVehicleCount busy_service busy_heap))) = snapshot busy_service busy_heap \<and>
   history busy_service
     (write_array (fst (getDetectedVehicles busy_service busy_heap)) []
        (snd (getDetectedVehicles busy_service busy_heap))) = history busy_service busy_heap"
proof -
  have o: "owns busy_service busy_heap"
    by (simp add: owns_def busy_service_def busy_heap_def)
  from accessors_shallow_copies [OF o] o show ?thesis by blast
qed

text \<open>
  C10, as stated, excludes live references. The array returned by
  \<open>getDetectedVehicles\<close> holds the store's own detection objects: assigning to a field
  of its first element changes the history.
\<close>

theorem history_elements_shared:
  "history busy_service
     (write_vehicle
        (hd (arrays_at (snd (getDetectedVehicles busy_service busy_heap))
                       (fst (getDetectedVehicles busy_service busy_heap))))
        (blank_vehicle\<lparr>type_dv := CAR, confidence := 1\<rparr>)
        (snd (getDetectedVehicles busy_service busy_heap))) \<noteq>
   history busy_service busy_heap"
  by (simp add: history_eq getDetectedVehicles_def new_array_def write_vehicle_def
      busy_service_def busy_heap_def blank_vehicle_def)

end
